theory Spec2Isabelle
  imports Main
begin

section \<open>Values\<close>

text \<open>
  The program is TypeScript (\<^verbatim>\<open>utils.ts\<close> of the Spotify server). Its values are modelled
  as the interfaces of the source type them:
  \<^item> a string is the list of its bytes (UTF-8);
  \<^item> a number is an integer (epoch milliseconds, seconds, HTTP status codes);
  \<^item> an optional field, and any value read from JSON, is an \<open>option\<close>: \<open>None\<close> stands for
    \<^verbatim>\<open>undefined\<close>, \<^verbatim>\<open>null\<close> and an absent property alike (JSON.stringify drops
    \<^verbatim>\<open>undefined\<close> properties, and every test the source makes on these values is a
    truthiness test, which does not tell them apart);
  \<^item> \<^verbatim>\<open>throw new Error(msg)\<close> is \<open>Inl (Error msg)\<close> in a result of type \<open>error + 'a\<close>.
\<close>

datatype error = Error (message: string)

text \<open>Truthiness of an optional string: \<^verbatim>\<open>undefined\<close>, \<^verbatim>\<open>null\<close> and \<^verbatim>\<open>""\<close> are falsy.
  (For an optional number, \<^verbatim>\<open>0\<close> is falsy too: the definitions below that test one
  say so in place.)\<close>

definition truthy :: "string option \<Rightarrow> bool" where
  "truthy v = (case v of None \<Rightarrow> False | Some s \<Rightarrow> s \<noteq> [])"

text \<open>\<^verbatim>\<open>String(n)\<close> and \<^verbatim>\<open>`${n}`\<close> for an integer: its decimal digits.\<close>

fun digits :: "nat \<Rightarrow> string" where
  "digits n =
     (if n < 10 then [char_of (48 + n)]
      else digits (n div 10) @ [char_of (48 + n mod 10)])"

declare digits.simps [simp del]

definition String_of :: "int \<Rightarrow> string" where
  "String_of i = (if i < 0 then CHR ''-'' # digits (nat (- i)) else digits (nat i))"

text \<open>A template literal prints \<^verbatim>\<open>undefined\<close> for an absent string.\<close>

definition template :: "string option \<Rightarrow> string" where
  "template v = (case v of None \<Rightarrow> ''undefined'' | Some s \<Rightarrow> s)"

subsection \<open>URLSearchParams\<close>

text \<open>
  \<^verbatim>\<open>URLSearchParams.toString()\<close> is the application/x-www-form-urlencoded serializer:
  letters, digits and \<^verbatim>\<open>* - . _\<close> stand for themselves, a space becomes \<^verbatim>\<open>+\<close>, every
  other byte \<^verbatim>\<open>%XX\<close> in upper-case hexadecimal; a pair is \<^verbatim>\<open>name=value\<close> and the
  pairs are joined by \<^verbatim>\<open>&\<close>.
\<close>

definition hex_digit :: "nat \<Rightarrow> char" where
  "hex_digit n = ''0123456789ABCDEF'' ! (n mod 16)"

definition urlencode_byte :: "char \<Rightarrow> string" where
  "urlencode_byte c =
     (let n = (of_char c :: nat) in
      if (48 \<le> n \<and> n \<le> 57) \<or> (65 \<le> n \<and> n \<le> 90) \<or> (97 \<le> n \<and> n \<le> 122)
         \<or> n = 42 \<or> n = 45 \<or> n = 46 \<or> n = 95 then [c]
      else if n = 32 then ''+''
      else [CHR ''%'', hex_digit (n div 16), hex_digit (n mod 16)])"

definition urlencode :: "string \<Rightarrow> string" where
  "urlencode s = concat (map urlencode_byte s)"

fun URLSearchParams_toString :: "(string \<times> string) list \<Rightarrow> string" where
  "URLSearchParams_toString [] = []"
| "URLSearchParams_toString [(k, v)] = urlencode k @ ''='' @ urlencode v"
| "URLSearchParams_toString ((k, v) # p # ps) =
     urlencode k @ ''='' @ urlencode v @ ''&'' @ URLSearchParams_toString (p # ps)"

subsection \<open>Base64\<close>

text \<open>\<^verbatim>\<open>Buffer.from(str).toString('base64')\<close>: three bytes become four characters of
  the standard alphabet, the last group padded with \<^verbatim>\<open>=\<close>.\<close>

definition base64_char :: "nat \<Rightarrow> char" where
  "base64_char n =
     ''ABCDEFGHIJKLMNOPQRSTUVWXYZabcdefghijklmnopqrstuvwxyz0123456789+/'' ! (n mod 64)"

fun base64_bytes :: "nat list \<Rightarrow> string" where
  "base64_bytes [] = []"
| "base64_bytes [a] =
     [base64_char (a div 4), base64_char ((a mod 4) * 16), CHR ''='', CHR ''='']"
| "base64_bytes [a, b] =
     [base64_char (a div 4), base64_char ((a mod 4) * 16 + b div 16),
      base64_char ((b mod 16) * 4), CHR ''='']"
| "base64_bytes (a # b # c # rest) =
     [base64_char (a div 4), base64_char ((a mod 4) * 16 + b div 16),
      base64_char ((b mod 16) * 4 + c div 64), base64_char (c mod 64)]
     @ base64_bytes rest"

definition base64Encode :: "string \<Rightarrow> string" where
  "base64Encode str = base64_bytes (map of_char str)"

section \<open>The credential record and its file\<close>

text \<open>
  \<^verbatim>\<open>interface SpotifyConfig\<close>. The three required fields are optional here because the
  record comes out of \<^verbatim>\<open>JSON.parse\<close> unchecked: \<^verbatim>\<open>loadSpotifyConfig\<close> is what tests them.
\<close>

record SpotifyConfig =
  clientId :: "string option"
  clientSecret :: "string option"
  redirectUri :: "string option"
  accessToken :: "string option"
  refreshToken :: "string option"
  expiresAt :: "int option"

text \<open>
  The file at \<^verbatim>\<open>CONFIG_FILE\<close>, by what the source can observe of it:
  \<^item> \<open>NotFound\<close>: \<^verbatim>\<open>fs.existsSync(CONFIG_FILE)\<close> is false;
  \<^item> \<open>Unparsable m\<close>: \<^verbatim>\<open>JSON.parse(fs.readFileSync(CONFIG_FILE, 'utf8'))\<close>, or reading
    the fields of what it returns, throws an error whose message is \<open>m\<close>;
  \<^item> \<open>Content c\<close>: the text decodes to an object with the fields of \<open>c\<close>.
  \<^verbatim>\<open>saveSpotifyConfig\<close> writes \<^verbatim>\<open>JSON.stringify(config)\<close>, which decodes to the record
  written.
\<close>

datatype config_file = NotFound | Unparsable string | Content SpotifyConfig

section \<open>The network\<close>

text \<open>
  A request as \<^verbatim>\<open>fetch(url, {method, headers, body})\<close> receives it. The body is a
  \<^verbatim>\<open>URLSearchParams\<close> (the token endpoint) or \<^verbatim>\<open>JSON.stringify\<close> of a structured
  value of type \<open>'b\<close> (the resource API).
\<close>

datatype 'b request_body = Form_body "(string \<times> string) list" | JSON_body 'b

record 'b request =
  url :: string
  http_method :: string
  headers :: "(string \<times> string) list"
  body :: "'b request_body option"

text \<open>
  A response: its status, its text, and what decoding the text as JSON gives
  (\<open>Inl m\<close> when \<^verbatim>\<open>JSON.parse\<close> or \<^verbatim>\<open>response.json()\<close> throws with message \<open>m\<close>).
  \<^verbatim>\<open>fetch\<close> itself either rejects (no connection) or resolves with a response.
\<close>

record 'j response =
  status :: nat
  response_text :: string
  json :: "string + 'j"

datatype 'j fetch_result = Fails string | Responds "'j response"

definition ok :: "'j response \<Rightarrow> bool" where
  "ok r = (200 \<le> status r \<and> status r \<le> 299)"

text \<open>The JSON object of the token endpoint: \<^verbatim>\<open>{access_token, refresh_token?, expires_in}\<close>.\<close>

record token_data =
  access_token :: "string option"
  refresh_token :: "string option"
  expires_in :: "int option"

section \<open>The process state\<close>

text \<open>
  What the functions read and write: the path and the content of the configuration
  file, the module variable \<^verbatim>\<open>cachedAccessToken\<close>, and the requests handed to
  \<^verbatim>\<open>fetch\<close> so far, oldest first.
\<close>

record 'b world =
  CONFIG_FILE :: string
  disk :: config_file
  cachedAccessToken :: "string option"
  sent :: "'b request list"

section \<open>CredentialStore\<close>

text \<open>
  \<^verbatim>\<open>loadSpotifyConfig\<close>. Everything after the existence test runs inside one
  \<^verbatim>\<open>try\<close> block, whose \<^verbatim>\<open>catch\<close> rethrows any error \<open>e\<close> as \<open>rethrow e\<close>: the
  error thrown for missing fields is caught and wrapped like a parse error.
\<close>

definition rethrow :: "error \<Rightarrow> error" where
  "rethrow e = Error (''Failed to parse Spotify configuration: '' @ message e)"

definition loadSpotifyConfig :: "'b world \<Rightarrow> error + SpotifyConfig" where
  "loadSpotifyConfig w =
     (case disk w of
        NotFound \<Rightarrow>
          Inl (Error (''Spotify configuration file not found at '' @ CONFIG_FILE w
            @ ''. Please create one with clientId, clientSecret, and redirectUri.''))
      | Unparsable m \<Rightarrow> Inl (rethrow (Error m))
      | Content config \<Rightarrow>
          if \<not> (truthy (clientId config) \<and> truthy (clientSecret config)
                 \<and> truthy (redirectUri config))
          then Inl (rethrow (Error
            ''Spotify configuration must include clientId, clientSecret, and redirectUri.''))
          else Inr config)"

definition saveSpotifyConfig :: "SpotifyConfig \<Rightarrow> 'b world \<Rightarrow> 'b world" where
  "saveSpotifyConfig config w = w\<lparr>disk := Content config\<rparr>"

section \<open>TokenManager\<close>

definition authHeader :: "SpotifyConfig \<Rightarrow> string" where
  "authHeader config =
     ''Basic '' @ base64Encode (template (clientId config) @ '':'' @ template (clientSecret config))"

definition tokenUrl :: string where
  "tokenUrl = ''https://accounts.spotify.com/api/token''"

text \<open>
  \<^verbatim>\<open>refreshAccessToken\<close> returns \<^verbatim>\<open>{access_token, expires_in}\<close>, here a pair. The
  argument \<open>fetch\<close> is the network: what the token endpoint answers to a request.
  \<open>refresh_request\<close> is the request the function sends, \<open>refresh_answer\<close> what it makes
  of the answer.
\<close>

definition refresh_request :: "SpotifyConfig \<Rightarrow> string \<Rightarrow> 'b request" where
  "refresh_request config rt =
     \<lparr>url = tokenUrl, http_method = ''POST'',
      headers = [(''Authorization'', authHeader config),
                 (''Content-Type'', ''application/x-www-form-urlencoded'')],
      body = Some (Form_body [(''grant_type'', ''refresh_token''), (''refresh_token'', rt)])\<rparr>"

definition refresh_answer :: "token_data fetch_result \<Rightarrow> error + string option \<times> int" where
  "refresh_answer answer =
     (case answer of
        Fails m \<Rightarrow> Inl (Error m)
      | Responds r \<Rightarrow>
          if \<not> ok r then Inl (Error (''Failed to refresh access token: '' @ response_text r))
          else
            (case json r of
               Inl m \<Rightarrow> Inl (Error m)
             | Inr data \<Rightarrow>
                 Inr (access_token data,
                      (case expires_in data of
                         None \<Rightarrow> 3600
                       | Some n \<Rightarrow> if n = 0 then 3600 else n))))"

definition refreshAccessToken ::
  "('b request \<Rightarrow> token_data fetch_result) \<Rightarrow> SpotifyConfig \<Rightarrow> 'b world
     \<Rightarrow> (error + string option \<times> int) \<times> 'b world" where
  "refreshAccessToken fetch config w =
     (case refreshToken config of
        None \<Rightarrow> (Inl (Error ''No refresh token available''), w)
      | Some rt \<Rightarrow>
          if rt = [] then (Inl (Error ''No refresh token available''), w)
          else
            let req = refresh_request config rt
            in (refresh_answer (fetch req), w\<lparr>sent := sent w @ [req]\<rparr>))"

text \<open>
  \<^verbatim>\<open>getAccessToken\<close>. \<open>now\<close> is what \<^verbatim>\<open>Date.now()\<close> returns: the milliseconds elapsed
  since the epoch, a natural number. The result is the token returned (absent when the
  refreshed record has none) or the error thrown, with the state the call leaves.
\<close>

definition shouldRefresh :: "SpotifyConfig \<Rightarrow> nat \<Rightarrow> bool" where
  "shouldRefresh config now =
     (case expiresAt config of None \<Rightarrow> True | Some t \<Rightarrow> t = 0 \<or> t \<le> int now)"

definition getAccessToken ::
  "('b request \<Rightarrow> token_data fetch_result) \<Rightarrow> nat \<Rightarrow> 'b world
     \<Rightarrow> (error + string option) \<times> 'b world" where
  \<open>getAccessToken fetch now w =
     (case loadSpotifyConfig w of
        Inl e \<Rightarrow> (Inl e, w)
      | Inr config \<Rightarrow>
          if truthy (accessToken config) \<and> truthy (refreshToken config) then
            if shouldRefresh config now then
              (case refreshAccessToken fetch config w of
                 (Inl e, w1) \<Rightarrow>
                   (Inl (Error
                      ''Failed to refresh access token. Please run "npm run auth" to re-authenticate.''),
                    w1)
               | (Inr (new_token, expires), w1) \<Rightarrow>
                   let config' = config\<lparr>accessToken := new_token,
                                         expiresAt := Some (int now + expires * 1000)\<rparr>;
                       w2 = saveSpotifyConfig config' w1;
                       w3 = w2\<lparr>cachedAccessToken := None\<rparr>
                   in (Inr (accessToken config'),
                       w3\<lparr>cachedAccessToken := accessToken config'\<rparr>))
            else (Inr (accessToken config), w\<lparr>cachedAccessToken := accessToken config\<rparr>)
          else
            (Inl (Error
               ''No access token available. Please run "npm run auth" to authenticate.''), w))\<close>

section \<open>RequestGateway\<close>

text \<open>
  \<^verbatim>\<open>interface SpotifyFetchOptions\<close>: an optional method, an optional structured body
  and optional query parameters, each a string, a number or \<^verbatim>\<open>undefined\<close>. The
  parameters are the list \<^verbatim>\<open>Object.entries(params)\<close> enumerates.
\<close>

datatype param_value = Str string | Num int

record 'b SpotifyFetchOptions =
  opt_method :: "string option"
  opt_body :: "'b option"
  opt_params :: "(string \<times> param_value option) list option"

definition String_value :: "param_value \<Rightarrow> string" where
  "String_value v = (case v of Str s \<Rightarrow> s | Num n \<Rightarrow> String_of n)"

definition SPOTIFY_API_BASE :: string where
  "SPOTIFY_API_BASE = ''https://api.spotify.com/v1''"

text \<open>The loop over the entries: \<open>searchParams\<close> is what has been appended so far.\<close>

fun append_params ::
  "(string \<times> param_value option) list \<Rightarrow> (string \<times> string) list \<Rightarrow> (string \<times> string) list" where
  "append_params [] searchParams = searchParams"
| "append_params ((key, val) # rest) searchParams =
     append_params rest
       (case val of
          None \<Rightarrow> searchParams
        | Some v \<Rightarrow> searchParams @ [(key, String_value v)])"

definition request_url ::
  "string \<Rightarrow> (string \<times> param_value option) list option \<Rightarrow> string" where
  "request_url endpoint params =
     (let url0 = SPOTIFY_API_BASE @ endpoint in
      case params of
        None \<Rightarrow> url0
      | Some ps \<Rightarrow>
          let queryString = URLSearchParams_toString (append_params ps []) in
          if queryString \<noteq> [] then url0 @ ''?'' @ queryString else url0)"

definition request_headers :: "string option \<Rightarrow> 'b option \<Rightarrow> (string \<times> string) list" where
  "request_headers accessToken' b =
     [(''Authorization'', ''Bearer '' @ template accessToken')]
     @ (case b of None \<Rightarrow> [] | Some _ \<Rightarrow> [(''Content-Type'', ''application/json'')])"

definition api_request ::
  "string option \<Rightarrow> string \<Rightarrow> 'b SpotifyFetchOptions \<Rightarrow> 'b request" where
  "api_request accessToken' endpoint options =
     \<lparr>url = request_url endpoint (opt_params options),
      http_method = (case opt_method options of None \<Rightarrow> ''GET'' | Some m \<Rightarrow> m),
      headers = request_headers accessToken' (opt_body options),
      body = map_option JSON_body (opt_body options)\<rparr>"

text \<open>
  \<^verbatim>\<open>spotifyFetch\<close>, the spec's \<^verbatim>\<open>authenticatedRequest\<close>. \<open>token_endpoint\<close> and \<open>api\<close>
  are the network: the answers of the token endpoint and of the resource API. The
  result \<open>Inr None\<close> is \<^verbatim>\<open>undefined\<close>.
\<close>

definition spotifyFetch ::
  "('b request \<Rightarrow> token_data fetch_result) \<Rightarrow> ('b request \<Rightarrow> 'j fetch_result) \<Rightarrow> nat
     \<Rightarrow> string \<Rightarrow> 'b SpotifyFetchOptions \<Rightarrow> 'b world \<Rightarrow> (error + 'j option) \<times> 'b world" where
  "spotifyFetch token_endpoint api now endpoint options w =
     (case getAccessToken token_endpoint now w of
        (Inl e, w1) \<Rightarrow> (Inl e, w1)
      | (Inr accessToken', w1) \<Rightarrow>
          let req = api_request accessToken' endpoint options;
              w2 = w1\<lparr>sent := sent w1 @ [req]\<rparr>
          in (case api req of
                Fails m \<Rightarrow> (Inl (Error m), w2)
              | Responds r \<Rightarrow>
                  if \<not> ok r then
                    (Inl (Error (''Spotify API error ('' @ String_of (int (status r)) @ ''): ''
                                 @ response_text r)), w2)
                  else if response_text r = [] then (Inr None, w2)
                  else (case json r of
                          Inr v \<Rightarrow> (Inr (Some v), w2)
                        | Inl _ \<Rightarrow> (Inr None, w2))))"

section \<open>AuthorizationFlow\<close>

definition generateRandomString :: "nat \<Rightarrow> nat list \<Rightarrow> string" where
  "generateRandomString len random =
     map (\<lambda>b. ''ABCDEFGHIJKLMNOPQRSTUVWXYZabcdefghijklmnopqrstuvwxyz0123456789'' ! (b mod 62))
       (take len random)"

text \<open>
  \<^verbatim>\<open>exchangeCodeForToken\<close> suspends at \<^verbatim>\<open>await fetch\<close>: \<open>exchange_request\<close> is the
  request it sends, \<open>exchangeCodeForToken\<close> what it returns or throws once the answer
  is there (\<^verbatim>\<open>{access_token, refresh_token, expires_in}\<close>, here a triple).
\<close>

definition exchange_request :: "string \<Rightarrow> SpotifyConfig \<Rightarrow> 'b request" where
  "exchange_request code config =
     \<lparr>url = tokenUrl, http_method = ''POST'',
      headers = [(''Authorization'', authHeader config),
                 (''Content-Type'', ''application/x-www-form-urlencoded'')],
      body = Some (Form_body [(''grant_type'', ''authorization_code''), (''code'', code),
                              (''redirect_uri'', template (redirectUri config))])\<rparr>"

definition exchangeCodeForToken ::
  "token_data fetch_result \<Rightarrow> error + string option \<times> string option \<times> int" where
  "exchangeCodeForToken answer =
     (case answer of
        Fails m \<Rightarrow> Inl (Error m)
      | Responds r \<Rightarrow>
          if \<not> ok r then
            Inl (Error (''Failed to exchange code for token: '' @ response_text r))
          else
            (case json r of
               Inl m \<Rightarrow> Inl (Error m)
             | Inr data \<Rightarrow>
                 Inr (access_token data, refresh_token data,
                      (case expires_in data of
                         None \<Rightarrow> 3600
                       | Some n \<Rightarrow> if n = 0 then 3600 else n))))"

text \<open>
  The fields of \<^verbatim>\<open>new URL(config.redirectUri)\<close> the source reads, and a request the
  listener receives, by what the handler reads of it: no URL at all, or the path and
  the \<^verbatim>\<open>code\<close>, \<^verbatim>\<open>state\<close> and \<^verbatim>\<open>error\<close> parameters of
  \<^verbatim>\<open>new URL(req.url, `http://localhost:${port}`)\<close>.
\<close>

record parsed_url =
  hostname :: string
  port :: string
  pathname :: string

datatype incoming =
    NoUrl
  | Url (req_pathname: string) (req_code: "string option") (req_state: "string option")
      (req_error: "string option")

text \<open>
  The promise \<^verbatim>\<open>authPromise\<close> and what the flow does that can be observed, in order.
  \<open>Settles\<close> is logged when a call of \<^verbatim>\<open>resolve\<close> or \<^verbatim>\<open>reject\<close> settles the promise; a
  call on a promise already settled does nothing, as in JavaScript.
\<close>

datatype settled = Pending | Fulfilled | Rejected error

datatype effect =
    WriteHead nat
  | End_response string
  | Server_close
  | Settles settled

record 'b flow =
  world :: "'b world"
  config :: SpotifyConfig
  state :: string
  callbackPath :: string
  listening :: bool
  promise :: settled
  awaiting :: nat
  effects :: "effect list"

definition writeHead :: "nat \<Rightarrow> 'b flow \<Rightarrow> 'b flow" where
  "writeHead n s = s\<lparr>effects := effects s @ [WriteHead n]\<rparr>"

definition res_end :: "string \<Rightarrow> 'b flow \<Rightarrow> 'b flow" where
  "res_end page s = s\<lparr>effects := effects s @ [End_response page]\<rparr>"

definition server_close :: "'b flow \<Rightarrow> 'b flow" where
  "server_close s = s\<lparr>listening := False, effects := effects s @ [Server_close]\<rparr>"

definition settle :: "settled \<Rightarrow> 'b flow \<Rightarrow> 'b flow" where
  "settle outcome s =
     (if promise s = Pending
      then s\<lparr>promise := outcome, effects := effects s @ [Settles outcome]\<rparr>
      else s)"

definition resolve :: "'b flow \<Rightarrow> 'b flow" where
  "resolve s = settle Fulfilled s"

definition reject :: "error \<Rightarrow> 'b flow \<Rightarrow> 'b flow" where
  "reject e s = settle (Rejected e) s"

definition page_failed :: string where
  "page_failed = ''<html><body><h1>Authentication Failed</h1><p>Please close this window and try again.</p></body></html>''"

definition page_state :: string where
  "page_state = ''<html><body><h1>Authentication Failed</h1><p>State verification failed. Please close this window and try again.</p></body></html>''"

definition page_no_code :: string where
  "page_no_code = ''<html><body><h1>Authentication Failed</h1><p>No authorization code received. Please close this window and try again.</p></body></html>''"

definition page_success :: string where
  "page_success = ''<html><body><h1>Authentication Successful!</h1><p>You can now close this window and return to the application.</p></body></html>''"

definition page_exchange :: string where
  "page_exchange = ''<html><body><h1>Authentication Failed</h1><p>Failed to exchange authorization code for tokens. Please close this window and try again.</p></body></html>''"

text \<open>
  The request handler of \<^verbatim>\<open>http.createServer\<close>, up to its \<^verbatim>\<open>await\<close>: on a callback
  that passes the three tests it sends the exchange request and suspends
  (\<open>awaiting\<close> counts the suspended handlers).
\<close>

definition handler :: "incoming \<Rightarrow> 'b flow \<Rightarrow> 'b flow" where
  "handler req s =
     (case req of
        NoUrl \<Rightarrow> res_end ''No URL provided'' s
      | Url path code returnedState err \<Rightarrow>
          if path = callbackPath s then
            let s1 = writeHead 200 s in
            if truthy err then
              reject (Error (''Authorization failed: '' @ template err))
                (server_close (res_end page_failed s1))
            else if returnedState \<noteq> Some (state s) then
              reject (Error ''State mismatch'') (server_close (res_end page_state s1))
            else if \<not> truthy code then
              reject (Error ''No authorization code received'')
                (server_close (res_end page_no_code s1))
            else
              s1\<lparr>world := (world s1)\<lparr>sent := sent (world s1)
                             @ [exchange_request (template code) (config s1)]\<rparr>,
                  awaiting := Suc (awaiting s1)\<rparr>
          else res_end [] (writeHead 404 s))"

text \<open>
  The rest of the handler, run when the token endpoint has answered: the \<^verbatim>\<open>try\<close>
  block after the \<^verbatim>\<open>await\<close>, and its \<^verbatim>\<open>catch\<close>. \<open>now\<close> is \<^verbatim>\<open>Date.now()\<close> there.
  \<^verbatim>\<open>config\<close> is the one object loaded when the flow started: the handler assigns to
  its fields and saves it.
\<close>

definition handler_resume :: "token_data fetch_result \<Rightarrow> nat \<Rightarrow> 'b flow \<Rightarrow> 'b flow" where
  "handler_resume answer now s =
     (case exchangeCodeForToken answer of
        Inr (access, refresh, expires) \<Rightarrow>
          let config' = (config s)\<lparr>accessToken := access, refreshToken := refresh,
                                   expiresAt := Some (int now + expires * 1000)\<rparr>;
              s1 = s\<lparr>config := config', world := saveSpotifyConfig config' (world s)\<rparr>
          in resolve (server_close (res_end page_success s1))
      | Inl e \<Rightarrow> reject e (server_close (res_end page_exchange s)))"

text \<open>
  What can happen while \<^verbatim>\<open>authorizeSpotify\<close> waits for \<^verbatim>\<open>authPromise\<close>: the listener
  receives a request, the token endpoint answers a suspended handler, or the server
  emits \<^verbatim>\<open>error\<close>, whose listener rejects the promise and closes nothing. Handlers
  interleave only at their \<^verbatim>\<open>await\<close>: each event runs to its end before the next.
  The handler does not test whether the server has been closed, and
  \<^verbatim>\<open>server.close()\<close> only stops new connections: a request that arrives on a
  connection still open is handled like any other, and a suspended handler resumes.
  So no event is filtered by \<open>listening\<close>.
\<close>

datatype event =
    Request incoming
  | Token_response "token_data fetch_result" nat
  | Server_error string

definition step :: "event \<Rightarrow> 'b flow \<Rightarrow> 'b flow" where
  "step ev s =
     (case ev of
        Request req \<Rightarrow> handler req s
      | Token_response answer now \<Rightarrow>
          if awaiting s = 0 then s
          else handler_resume answer now (s\<lparr>awaiting := awaiting s - 1\<rparr>)
      | Server_error m \<Rightarrow> reject (Error m) s)"

fun run :: "event list \<Rightarrow> 'b flow \<Rightarrow> 'b flow" where
  "run [] s = s"
| "run (ev # evs) s = run evs (step ev s)"

text \<open>
  \<^verbatim>\<open>authorizeSpotify\<close> up to \<^verbatim>\<open>await authPromise\<close>: it throws, exits the process, or
  leaves a listening flow. \<open>URL\<close> is the URL parser (\<open>None\<close> when \<^verbatim>\<open>new URL\<close> throws),
  \<open>random\<close> the bytes \<^verbatim>\<open>crypto.getRandomValues\<close> delivers. The authorization URL that
  is opened in the browser has no part in what follows and is left out.
\<close>

datatype 'a started = Throws error | Exits nat | Listening 'a

definition authorizeSpotify ::
  "(string \<Rightarrow> parsed_url option) \<Rightarrow> nat list \<Rightarrow> 'b world \<Rightarrow> 'b flow started" where
  "authorizeSpotify URL random w =
     (case loadSpotifyConfig w of
        Inl e \<Rightarrow> Throws e
      | Inr cfg \<Rightarrow>
          (case URL (template (redirectUri cfg)) of
             None \<Rightarrow> Throws (Error ''Invalid URL'')
           | Some redirect \<Rightarrow>
               if hostname redirect \<noteq> ''localhost'' \<and> hostname redirect \<noteq> ''127.0.0.1''
               then Exits 1
               else Listening
                 \<lparr>world = w, config = cfg, state = generateRandomString 16 random,
                  callbackPath =
                    (if pathname redirect \<noteq> [] then pathname redirect else ''/callback''),
                  listening = True, promise = Pending, awaiting = 0, effects = []\<rparr>))"

section \<open>The vocabulary of the specification\<close>

text \<open>
  The source throws plain \<^verbatim>\<open>Error\<close> objects; the specification names them by kind.
  Each kind is the error the source builds at the corresponding \<^verbatim>\<open>throw\<close>:
  \<open>ConfigMissing\<close> and \<open>ConfigInvalid\<close> in \<^verbatim>\<open>loadSpotifyConfig\<close> (the latter carries
  the message of the error that the \<^verbatim>\<open>catch\<close> block wraps), \<open>Unauthenticated\<close> and
  \<open>RefreshFailed\<close> in \<^verbatim>\<open>getAccessToken\<close>.
\<close>

definition ConfigMissing :: "string \<Rightarrow> error" where
  "ConfigMissing path =
     Error (''Spotify configuration file not found at '' @ path
       @ ''. Please create one with clientId, clientSecret, and redirectUri.'')"

definition ConfigInvalid :: "string \<Rightarrow> error" where
  "ConfigInvalid m = Error (''Failed to parse Spotify configuration: '' @ m)"

definition fields_missing :: string where
  "fields_missing =
     ''Spotify configuration must include clientId, clientSecret, and redirectUri.''"

definition Unauthenticated :: error where
  \<open>Unauthenticated =
     Error ''No access token available. Please run "npm run auth" to authenticate.''\<close>

definition RefreshFailed :: error where
  \<open>RefreshFailed =
     Error ''Failed to refresh access token. Please run "npm run auth" to re-authenticate.''\<close>

text \<open>The specification's staleness: \<^verbatim>\<open>expiresAt\<close> is absent, or not after \<open>now\<close>.\<close>

definition stale :: "SpotifyConfig \<Rightarrow> nat \<Rightarrow> bool" where
  "stale c now = (case expiresAt c of None \<Rightarrow> True | Some t \<Rightarrow> t \<le> int now)"

text \<open>A request to the token endpoint fails when \<^verbatim>\<open>fetch\<close> rejects, the status is
  not 2xx, or the body of a 2xx answer does not decode.\<close>

definition request_failed :: "'j fetch_result \<Rightarrow> bool" where
  "request_failed answer =
     (case answer of Fails m \<Rightarrow> True | Responds r \<Rightarrow> \<not> ok r \<or> isl (json r))"

text \<open>\<open>ApiError\<close> is the error \<^verbatim>\<open>spotifyFetch\<close> throws on a status that is not 2xx; its
  message holds the status in decimal and the text of the response.\<close>

definition ApiError :: "nat \<Rightarrow> string \<Rightarrow> error" where
  "ApiError st txt = Error (''Spotify API error ('' @ String_of (int st) @ ''): '' @ txt)"

text \<open>The query parameters that have a value, in order, each value as a string.\<close>

definition defined_params ::
  "(string \<times> param_value option) list option \<Rightarrow> (string \<times> string) list" where
  "defined_params params =
     (case params of
        None \<Rightarrow> []
      | Some ps \<Rightarrow>
          concat (map (\<lambda>(k, v). case v of None \<Rightarrow> [] | Some x \<Rightarrow> [(k, String_value x)]) ps))"

text \<open>
  The errors by which the authorization flow fails, by the names of the
  specification. \<open>TokenExchangeFailed\<close> is read off the answer of the token endpoint:
  the message with which \<^verbatim>\<open>fetch\<close> rejected, the message built from the text of a
  response that is not 2xx, or the message of the decoder for a 2xx body that is not
  JSON.
\<close>

definition AuthorizationDenied :: "string \<Rightarrow> error" where
  "AuthorizationDenied e = Error (''Authorization failed: '' @ e)"

definition StateMismatch :: error where
  "StateMismatch = Error ''State mismatch''"

definition MissingCode :: error where
  "MissingCode = Error ''No authorization code received''"

definition TokenExchangeFailed :: "token_data fetch_result \<Rightarrow> error" where
  "TokenExchangeFailed answer =
     Error (case answer of
              Fails m \<Rightarrow> m
            | Responds r \<Rightarrow>
                if ok r then (case json r of Inl m \<Rightarrow> m | Inr d \<Rightarrow> [])
                else ''Failed to exchange code for token: '' @ response_text r)"

text \<open>The settlements a trace records, in order.\<close>

primrec settlements :: "effect list \<Rightarrow> settled list" where
  "settlements [] = []"
| "settlements (e # es) = (case e of Settles outcome \<Rightarrow> outcome # settlements es | _ \<Rightarrow> settlements es)"


text \<open>In a trace, the listener was closed before the promise settled.\<close>

definition closed_before_settling :: "effect list \<Rightarrow> bool" where
  "closed_before_settling es =
     (\<forall>pre outcome post. es = pre @ Settles outcome # post \<longrightarrow> Server_close \<in> set pre)"



text \<open>
  The token pair of the data model: the file, when it holds a record, has
  \<^verbatim>\<open>accessToken\<close> and \<^verbatim>\<open>refreshToken\<close> both present or both absent (present is the
  source's test: a non-empty string).
\<close>

definition token_pair :: "config_file \<Rightarrow> bool" where
  "token_pair f =
     (case f of Content c \<Rightarrow> truthy (accessToken c) \<longleftrightarrow> truthy (refreshToken c) | _ \<Rightarrow> True)"

text \<open>The file holds a record with both tokens and an \<^verbatim>\<open>expiresAt\<close> after \<open>t0\<close>.\<close>

definition authorized_until :: "nat \<Rightarrow> config_file \<Rightarrow> bool" where
  "authorized_until t0 f =
     (case f of
        Content c \<Rightarrow>
          truthy (accessToken c) \<and> truthy (refreshToken c)
          \<and> (case expiresAt c of None \<Rightarrow> False | Some t \<Rightarrow> int t0 < t)
      | _ \<Rightarrow> False)"

text \<open>
  What a token response must carry for the postconditions of the flow: where the
  exchange succeeds, both tokens and a positive lifetime (\<^verbatim>\<open>expires_in\<close> absent, zero
  or positive: the source takes 3600 for the first two), or, for the token pair alone,
  both tokens or neither.
\<close>

definition grants_tokens :: "token_data fetch_result \<Rightarrow> bool" where
  "grants_tokens answer =
     (case exchangeCodeForToken answer of
        Inl e \<Rightarrow> True
      | Inr (access, refresh, expires) \<Rightarrow> truthy access \<and> truthy refresh \<and> 0 < expires)"

definition grants_pair :: "token_data fetch_result \<Rightarrow> bool" where
  "grants_pair answer =
     (case exchangeCodeForToken answer of
        Inl e \<Rightarrow> True
      | Inr (access, refresh, expires) \<Rightarrow> truthy access \<longleftrightarrow> truthy refresh)"

section \<open>Example inputs\<close>

text \<open>A credential record whose token expired at millisecond 1000, and the state of
  a process that has it on disk.\<close>

definition c0 :: SpotifyConfig where
  "c0 = \<lparr>clientId = Some ''id'', clientSecret = Some ''secret'',
          redirectUri = Some ''http://127.0.0.1:8888/callback'',
          accessToken = Some ''old'', refreshToken = Some ''R'', expiresAt = Some 1000\<rparr>"

definition w0 :: "unit world" where
  "w0 = \<lparr>CONFIG_FILE = ''/srv/spotify-config.json'', disk = Content c0,
          cachedAccessToken = None, sent = []\<rparr>"

text \<open>Two token endpoints: one that refuses every request with HTTP 400, one that
  grants a new access token for an hour.\<close>

definition token_400 :: "unit request \<Rightarrow> token_data fetch_result" where
  "token_400 req =
     Responds \<lparr>status = 400, response_text = ''invalid_grant'', json = Inl ''not read''\<rparr>"


definition token_200 :: "unit request \<Rightarrow> token_data fetch_result" where
  "token_200 req =
     Responds \<lparr>status = 200, response_text = ''{...}'',
               json = Inr \<lparr>access_token = Some ''new'', refresh_token = None,
                           expires_in = Some 3600\<rparr>\<rparr>"

text \<open>Answers of the resource API, a state whose token is valid until millisecond
  5000, and two option records.\<close>

definition api_404 :: "unit request \<Rightarrow> nat fetch_result" where
  "api_404 req = Responds \<lparr>status = 404, response_text = ''no such album'', json = Inl ''Unexpected token''\<rparr>"

definition api_204 :: "unit request \<Rightarrow> nat fetch_result" where
  "api_204 req = Responds \<lparr>status = 204, response_text = [], json = Inl ''Unexpected end of JSON input''\<rparr>"

definition api_200 :: "unit request \<Rightarrow> nat fetch_result" where
  "api_200 req = Responds \<lparr>status = 200, response_text = ''7'', json = Inr 7\<rparr>"

definition w_fresh :: "unit world" where
  "w_fresh = w0\<lparr>disk := Content (c0\<lparr>expiresAt := Some 5000\<rparr>)\<rparr>"

definition search_options :: "unit SpotifyFetchOptions" where
  "search_options =
     \<lparr>opt_method = None, opt_body = None,
      opt_params = Some [(''q'', Some (Str ''daft punk'')), (''market'', None),
                         (''limit'', Some (Num 10))]\<rparr>"

definition play_options :: "unit SpotifyFetchOptions" where
  "play_options = \<lparr>opt_method = Some ''PUT'', opt_body = Some (), opt_params = Some [(''device_id'', None)]\<rparr>"

text \<open>
  An authorization flow: the URL parser on the redirect URI of \<open>c0\<close>, sixteen random
  bytes, and the flow \<^verbatim>\<open>authorizeSpotify\<close> starts with them; answers of the token
  endpoint to the exchange (both tokens; no refresh token; no token at all and a
  negative lifetime; HTTP 400) and to a refresh (no access token); an \<^verbatim>\<open>error\<close> event
  of the listener; requests of the browser.
\<close>

definition URL0 :: "string \<Rightarrow> parsed_url option" where
  "URL0 s =
     (if s = ''http://127.0.0.1:8888/callback''
      then Some \<lparr>hostname = ''127.0.0.1'', port = ''8888'', pathname = ''/callback''\<rparr>
      else None)"

definition random0 :: "nat list" where
  "random0 = [0, 1, 2, 3, 4, 5, 6, 7, 8, 9, 10, 11, 12, 13, 14, 15]"

definition flow0 :: "unit flow" where
  "flow0 =
     \<lparr>world = w0, config = c0, state = ''ABCDEFGHIJKLMNOP'', callbackPath = ''/callback'',
      listening = True, promise = Pending, awaiting = 0, effects = []\<rparr>"

definition granted :: "token_data fetch_result" where
  "granted = Responds \<lparr>status = 200, response_text = ''{...}'',
     json = Inr \<lparr>access_token = Some ''A'', refresh_token = Some ''R2'', expires_in = Some 3600\<rparr>\<rparr>"

definition half_grant :: "token_data fetch_result" where
  "half_grant = Responds \<lparr>status = 200, response_text = ''{...}'',
     json = Inr \<lparr>access_token = Some ''A'', refresh_token = None, expires_in = Some 3600\<rparr>\<rparr>"

definition empty_grant :: "token_data fetch_result" where
  "empty_grant = Responds \<lparr>status = 200, response_text = ''{...}'',
     json = Inr \<lparr>access_token = None, refresh_token = None, expires_in = Some (- 10000)\<rparr>\<rparr>"

definition token_no_access :: "unit request \<Rightarrow> token_data fetch_result" where
  "token_no_access req =
     Responds \<lparr>status = 200, response_text = ''{...}'',
               json = Inr \<lparr>access_token = None, refresh_token = None,
                           expires_in = Some 3600\<rparr>\<rparr>"

definition refused :: "token_data fetch_result" where
  "refused = Responds \<lparr>status = 400, response_text = ''invalid_grant'', json = Inl ''not read''\<rparr>"

definition listener_error :: event where
  "listener_error = Server_error ''accept EMFILE''"

definition callback_ok :: event where
  "callback_ok = Request (Url ''/callback'' (Some ''code'') (Some ''ABCDEFGHIJKLMNOP'') None)"

definition callback_mismatch :: event where
  "callback_mismatch = Request (Url ''/callback'' (Some ''code'') (Some ''XYZ'') None)"

definition favicon :: event where
  "favicon = Request (Url ''/favicon.ico'' None None None)"

section \<open>Properties\<close>

subsection \<open>Loading the configuration\<close>

lemma ConfigMissing_not_Invalid:
  "ConfigMissing p \<noteq> ConfigInvalid m" "ConfigInvalid m \<noteq> ConfigMissing p"
  by (simp_all add: ConfigMissing_def ConfigInvalid_def)

lemma load_Inr: "loadSpotifyConfig w = Inr c \<Longrightarrow> disk w = Content c"
  by (auto simp: loadSpotifyConfig_def split: config_file.splits if_splits)

lemma load_cache [simp]:
  "loadSpotifyConfig (w\<lparr>cachedAccessToken := x\<rparr>) = loadSpotifyConfig w"
  by (simp add: loadSpotifyConfig_def split: config_file.splits)

text \<open>
  Claim C7. \<^verbatim>\<open>loadSpotifyConfig\<close> fails with \<open>ConfigMissing\<close> exactly when there is no
  file at \<^verbatim>\<open>CONFIG_FILE\<close>; a file that does not parse fails with \<open>ConfigInvalid\<close>
  carrying the message of the parse error; a file that parses fails with
  \<open>ConfigInvalid\<close> when one of \<^verbatim>\<open>clientId\<close>, \<^verbatim>\<open>clientSecret\<close>, \<^verbatim>\<open>redirectUri\<close> is missing
  (absent or empty, the source's test), and otherwise the parsed record is returned.
\<close>

theorem load_taxonomy:
  "((\<exists>p. loadSpotifyConfig w = Inl (ConfigMissing p)) \<longleftrightarrow> disk w = NotFound)
   \<and> (disk w = NotFound \<longrightarrow> loadSpotifyConfig w = Inl (ConfigMissing (CONFIG_FILE w)))
   \<and> (disk w = Unparsable m \<longrightarrow> loadSpotifyConfig w = Inl (ConfigInvalid m))
   \<and> (disk w = Content c \<longrightarrow>
         loadSpotifyConfig w =
           (if truthy (clientId c) \<and> truthy (clientSecret c) \<and> truthy (redirectUri c)
            then Inr c else Inl (ConfigInvalid fields_missing)))"
proof (cases "disk w")
  case NotFound
  then have "loadSpotifyConfig w = Inl (ConfigMissing (CONFIG_FILE w))"
    by (simp add: loadSpotifyConfig_def ConfigMissing_def)
  with NotFound show ?thesis by auto
next
  case (Unparsable m')
  then have "loadSpotifyConfig w = Inl (ConfigInvalid m')"
    by (simp add: loadSpotifyConfig_def ConfigInvalid_def rethrow_def)
  with Unparsable show ?thesis by (auto simp: ConfigMissing_not_Invalid)
next
  case (Content c')
  then have "loadSpotifyConfig w =
      (if truthy (clientId c') \<and> truthy (clientSecret c') \<and> truthy (redirectUri c')
       then Inr c' else Inl (ConfigInvalid fields_missing))"
    by (simp add: loadSpotifyConfig_def ConfigInvalid_def rethrow_def fields_missing_def)
  with Content show ?thesis by (auto simp: ConfigMissing_not_Invalid)
qed

theorem load_taxonomy_witness:
  "loadSpotifyConfig w0 = Inr c0
   \<and> loadSpotifyConfig (w0\<lparr>disk := NotFound\<rparr>) = Inl (ConfigMissing ''/srv/spotify-config.json'')
   \<and> loadSpotifyConfig (w0\<lparr>disk := Unparsable ''Unexpected end of JSON input''\<rparr>)
       = Inl (ConfigInvalid ''Unexpected end of JSON input'')
   \<and> loadSpotifyConfig (w0\<lparr>disk := Content (c0\<lparr>clientSecret := None\<rparr>)\<rparr>)
       = Inl (ConfigInvalid fields_missing)"
proof -
  have a: "disk w0 = Content c0" by (simp add: w0_def)
  have t: "truthy (clientId c0) \<and> truthy (clientSecret c0) \<and> truthy (redirectUri c0)"
    by (simp add: c0_def truthy_def)
  have 1: "loadSpotifyConfig w0 = Inr c0"
    using load_taxonomy [of w0 "[]" c0] a t by simp
  have 2: "loadSpotifyConfig (w0\<lparr>disk := NotFound\<rparr>)
       = Inl (ConfigMissing ''/srv/spotify-config.json'')"
    using load_taxonomy [of "w0\<lparr>disk := NotFound\<rparr>" "[]" c0] by (simp add: w0_def)
  have 3: "loadSpotifyConfig (w0\<lparr>disk := Unparsable ''Unexpected end of JSON input''\<rparr>)
       = Inl (ConfigInvalid ''Unexpected end of JSON input'')"
    using load_taxonomy [of "w0\<lparr>disk := Unparsable ''Unexpected end of JSON input''\<rparr>"
        "''Unexpected end of JSON input''" c0] by simp
  have 4: "loadSpotifyConfig (w0\<lparr>disk := Content (c0\<lparr>clientSecret := None\<rparr>)\<rparr>)
       = Inl (ConfigInvalid fields_missing)"
    using load_taxonomy [of "w0\<lparr>disk := Content (c0\<lparr>clientSecret := None\<rparr>)\<rparr>" "[]"
        "c0\<lparr>clientSecret := None\<rparr>"] by (simp add: truthy_def)
  from 1 2 3 4 show ?thesis by simp
qed

subsection \<open>The token manager\<close>

lemma shouldRefresh_stale: "shouldRefresh c now = stale c now"
  by (auto simp: shouldRefresh_def stale_def split: option.splits)

lemma truthy_Some: "truthy v \<longleftrightarrow> (\<exists>s. v = Some s \<and> s \<noteq> [])"
  by (cases v) (simp_all add: truthy_def)

lemma refreshAccessToken_sends:
  "refreshToken c = Some rt \<Longrightarrow> rt \<noteq> [] \<Longrightarrow>
   refreshAccessToken fetch c w =
     (refresh_answer (fetch (refresh_request c rt)), w\<lparr>sent := sent w @ [refresh_request c rt]\<rparr>)"
  by (simp add: refreshAccessToken_def Let_def)

lemma request_failed_answer: "request_failed a \<longleftrightarrow> isl (refresh_answer a)"
  by (cases a) (auto simp: request_failed_def refresh_answer_def split: sum.splits)

lemma getAccessToken_load_fails:
  "loadSpotifyConfig w = Inl e \<Longrightarrow> getAccessToken fetch now w = (Inl e, w)"
  by (simp add: getAccessToken_def)

lemma getAccessToken_unauthenticated:
  "loadSpotifyConfig w = Inr c \<Longrightarrow> \<not> (truthy (accessToken c) \<and> truthy (refreshToken c)) \<Longrightarrow>
   getAccessToken fetch now w = (Inl Unauthenticated, w)"
  by (auto simp: getAccessToken_def Unauthenticated_def)

lemma getAccessToken_fresh:
  "loadSpotifyConfig w = Inr c \<Longrightarrow> truthy (accessToken c) \<Longrightarrow> truthy (refreshToken c) \<Longrightarrow>
   \<not> stale c now \<Longrightarrow>
   getAccessToken fetch now w = (Inr (accessToken c), w\<lparr>cachedAccessToken := accessToken c\<rparr>)"
  by (simp add: getAccessToken_def shouldRefresh_stale)

lemma getAccessToken_refresh_fails:
  "loadSpotifyConfig w = Inr c \<Longrightarrow> truthy (accessToken c) \<Longrightarrow> refreshToken c = Some rt \<Longrightarrow>
   rt \<noteq> [] \<Longrightarrow> stale c now \<Longrightarrow> refresh_answer (fetch (refresh_request c rt)) = Inl e \<Longrightarrow>
   getAccessToken fetch now w = (Inl RefreshFailed, w\<lparr>sent := sent w @ [refresh_request c rt]\<rparr>)"
  by (simp add: getAccessToken_def shouldRefresh_stale refreshAccessToken_sends truthy_def RefreshFailed_def)

lemma getAccessToken_refreshed:
  "loadSpotifyConfig w = Inr c \<Longrightarrow> truthy (accessToken c) \<Longrightarrow> refreshToken c = Some rt \<Longrightarrow>
   rt \<noteq> [] \<Longrightarrow> stale c now \<Longrightarrow>
   refresh_answer (fetch (refresh_request c rt)) = Inr (tok, expires) \<Longrightarrow>
   getAccessToken fetch now w =
     (Inr tok,
      w\<lparr>sent := sent w @ [refresh_request c rt],
        disk := Content (c\<lparr>accessToken := tok, expiresAt := Some (int now + expires * 1000)\<rparr>),
        cachedAccessToken := tok\<rparr>)"
  by (simp add: getAccessToken_def shouldRefresh_stale refreshAccessToken_sends truthy_def
        saveSpotifyConfig_def Let_def)

lemma getAccessToken_stale_sent:
  assumes "loadSpotifyConfig w = Inr c" "truthy (accessToken c)" "refreshToken c = Some rt"
    "rt \<noteq> []" "stale c now"
  shows "sent (snd (getAccessToken fetch now w)) = sent w @ [refresh_request c rt]"
proof (cases "refresh_answer (fetch (refresh_request c rt))")
  case (Inl e)
  with assms getAccessToken_refresh_fails [of w c rt now fetch e] show ?thesis by simp
next
  case (Inr p)
  obtain tok expires where "p = (tok, expires)" by (cases p)
  with Inr assms getAccessToken_refreshed [of w c rt now fetch tok expires] show ?thesis by simp
qed

text \<open>
  Claim C1. For a record on disk that loads and holds both tokens, \<^verbatim>\<open>getAccessToken\<close>
  refreshes exactly when the record is stale. If \<^verbatim>\<open>expiresAt\<close> is absent or not after
  \<open>now\<close>, the call hands exactly one request to \<^verbatim>\<open>fetch\<close>, the refresh request. If
  \<^verbatim>\<open>expiresAt\<close> is after \<open>now\<close>, the call returns the stored token, sends nothing and
  changes nothing but the cache; a second call while the token is still valid sends
  nothing either.
\<close>

theorem refresh_iff_stale:
  assumes "loadSpotifyConfig w = Inr c"
    and "truthy (accessToken c)" and "truthy (refreshToken c)"
  shows "(stale c now \<longrightarrow>
            (\<exists>rt. refreshToken c = Some rt
               \<and> sent (snd (getAccessToken fetch now w)) = sent w @ [refresh_request c rt]))
       \<and> (\<not> stale c now \<longrightarrow>
            getAccessToken fetch now w = (Inr (accessToken c), w\<lparr>cachedAccessToken := accessToken c\<rparr>))
       \<and> (\<not> stale c now \<longrightarrow> \<not> stale c now' \<longrightarrow>
            sent (snd (getAccessToken fetch now' (snd (getAccessToken fetch now w)))) = sent w)"
proof -
  from assms(3) obtain rt where rt: "refreshToken c = Some rt" "rt \<noteq> []"
    by (auto simp: truthy_Some)
  have 1: "stale c now \<Longrightarrow> sent (snd (getAccessToken fetch now w)) = sent w @ [refresh_request c rt]"
    using getAccessToken_stale_sent [OF assms(1,2) rt] by simp
  have 2: "getAccessToken fetch t w = (Inr (accessToken c), w\<lparr>cachedAccessToken := accessToken c\<rparr>)"
    if "\<not> stale c t" for t
    using getAccessToken_fresh [OF assms that] .
  have 3: "sent (snd (getAccessToken fetch now' (snd (getAccessToken fetch now w)))) = sent w"
    if "\<not> stale c now" "\<not> stale c now'"
  proof -
    let ?w1 = "w\<lparr>cachedAccessToken := accessToken c\<rparr>"
    have "loadSpotifyConfig ?w1 = Inr c" using assms(1) by simp
    from getAccessToken_fresh [OF this assms(2,3) that(2), of fetch] 2 [OF that(1)]
    show ?thesis by simp
  qed
  from 1 2 3 rt show ?thesis by blast
qed

theorem refresh_iff_stale_witness:
  "loadSpotifyConfig w0 = Inr c0 \<and> truthy (accessToken c0) \<and> truthy (refreshToken c0)
   \<and> stale c0 2000
   \<and> sent (snd (getAccessToken token_400 2000 w0)) = [refresh_request c0 ''R'']
   \<and> \<not> stale c0 500
   \<and> getAccessToken token_400 500 w0 = (Inr (Some ''old''), w0\<lparr>cachedAccessToken := Some ''old''\<rparr>)
   \<and> sent (snd (getAccessToken token_400 600 (snd (getAccessToken token_400 500 w0)))) = []"
proof -
  have l: "loadSpotifyConfig w0 = Inr c0"
    by (simp add: loadSpotifyConfig_def w0_def c0_def truthy_def)
  have a: "truthy (accessToken c0)" and r: "truthy (refreshToken c0)"
    by (simp_all add: c0_def truthy_def)
  have s: "stale c0 2000" and f: "\<not> stale c0 500" "\<not> stale c0 600"
    by (simp_all add: stale_def c0_def)
  have rt: "refreshToken c0 = Some ''R''" and at: "accessToken c0 = Some ''old''"
    by (simp_all add: c0_def)
  have e: "sent w0 = []" by (simp add: w0_def)
  from refresh_iff_stale [OF l a r, of 2000 token_400] s rt e
  have 1: "sent (snd (getAccessToken token_400 2000 w0)) = [refresh_request c0 ''R'']" by simp
  note t = refresh_iff_stale [OF l a r, of 500 token_400 600]
  from t f at
  have 2: "getAccessToken token_400 500 w0 = (Inr (Some ''old''), w0\<lparr>cachedAccessToken := Some ''old''\<rparr>)"
    by simp
  from t f
  have "sent (snd (getAccessToken token_400 600 (snd (getAccessToken token_400 500 w0)))) = sent w0"
    by blast
  with e
  have 3: "sent (snd (getAccessToken token_400 600 (snd (getAccessToken token_400 500 w0)))) = []"
    by simp
  from l a r s f 1 2 3 show ?thesis by blast
qed

text \<open>
  Claim C3. For a stale record that holds both tokens, when the refresh request fails
  (\<^verbatim>\<open>fetch\<close> rejects, the status is not 2xx, or the body does not decode)
  \<^verbatim>\<open>getAccessToken\<close> fails with \<open>RefreshFailed\<close> and the file is what it was: it still
  holds the record with the stale access token and the refresh token.
\<close>

theorem refresh_failure_atomic:
  assumes "loadSpotifyConfig w = Inr c"
    and "truthy (accessToken c)" and "refreshToken c = Some rt" and "rt \<noteq> []"
    and "stale c now"
    and "request_failed (fetch (refresh_request c rt))"
  shows "fst (getAccessToken fetch now w) = Inl RefreshFailed
       \<and> disk (snd (getAccessToken fetch now w)) = disk w
       \<and> disk w = Content c"
proof -
  from assms(6) obtain e where "refresh_answer (fetch (refresh_request c rt)) = Inl e"
    by (auto simp: request_failed_answer isl_def)
  with assms getAccessToken_refresh_fails [of w c rt now fetch e] load_Inr [OF assms(1)]
  show ?thesis by simp
qed

theorem refresh_failure_atomic_witness:
  "loadSpotifyConfig w0 = Inr c0 \<and> stale c0 2000
   \<and> request_failed (token_400 (refresh_request c0 ''R''))
   \<and> fst (getAccessToken token_400 2000 w0) = Inl RefreshFailed
   \<and> disk (snd (getAccessToken token_400 2000 w0)) = Content c0
   \<and> accessToken c0 = Some ''old'' \<and> refreshToken c0 = Some ''R''"
proof -
  have l: "loadSpotifyConfig w0 = Inr c0"
    by (simp add: loadSpotifyConfig_def w0_def c0_def truthy_def)
  have a: "truthy (accessToken c0)" by (simp add: c0_def truthy_def)
  have rt: "refreshToken c0 = Some ''R''" and at: "accessToken c0 = Some ''old''"
    by (simp_all add: c0_def)
  have n: "''R'' \<noteq> []" by simp
  have s: "stale c0 2000" by (simp add: stale_def c0_def)
  have q: "request_failed (token_400 (refresh_request c0 ''R''))"
    by (simp add: request_failed_def token_400_def ok_def)
  from refresh_failure_atomic [of w0 c0 "''R''" 2000 token_400] l a rt n s q
  have "fst (getAccessToken token_400 2000 w0) = Inl RefreshFailed"
    and "disk (snd (getAccessToken token_400 2000 w0)) = Content c0"
    by simp_all
  with l s q rt at show ?thesis by blast
qed

lemma getAccessToken_ignores_cache:
  "fst (getAccessToken fetch now (w\<lparr>cachedAccessToken := x\<rparr>))
     = fst (getAccessToken fetch now (w\<lparr>cachedAccessToken := y\<rparr>))
   \<and> sent (snd (getAccessToken fetch now (w\<lparr>cachedAccessToken := x\<rparr>)))
     = sent (snd (getAccessToken fetch now (w\<lparr>cachedAccessToken := y\<rparr>)))
   \<and> disk (snd (getAccessToken fetch now (w\<lparr>cachedAccessToken := x\<rparr>)))
     = disk (snd (getAccessToken fetch now (w\<lparr>cachedAccessToken := y\<rparr>)))"
proof (cases "loadSpotifyConfig w")
  case (Inl e)
  then show ?thesis by (simp add: getAccessToken_load_fails)
next
  case (Inr c)
  show ?thesis
  proof (cases "truthy (accessToken c) \<and> truthy (refreshToken c)")
    case False
    with Inr show ?thesis by (simp add: getAccessToken_unauthenticated)
  next
    case True
    then obtain rt where rt: "refreshToken c = Some rt" "rt \<noteq> []"
      by (auto simp: truthy_Some)
    show ?thesis
    proof (cases "stale c now")
      case False
      with Inr True show ?thesis by (simp add: getAccessToken_fresh)
    next
      case stale: True
      show ?thesis
      proof (cases "refresh_answer (fetch (refresh_request c rt))")
        case (Inl e)
        with Inr True rt stale show ?thesis
          by (simp add: getAccessToken_refresh_fails [where e = e])
      next
        case (Inr p)
        obtain tok expires where "p = (tok, expires)" by (cases p)
        with Inr \<open>loadSpotifyConfig w = Inr c\<close> True rt stale show ?thesis
          by (simp add: getAccessToken_refreshed [where tok = tok and expires = expires])
      qed
    qed
  qed
qed

lemma getAccessToken_returns_disk:
  assumes "fst (getAccessToken fetch now w) = Inr tok"
  shows "\<exists>c. disk (snd (getAccessToken fetch now w)) = Content c \<and> accessToken c = tok"
proof (cases "loadSpotifyConfig w")
  case (Inl e)
  with assms show ?thesis by (simp add: getAccessToken_load_fails)
next
  case (Inr c)
  show ?thesis
  proof (cases "truthy (accessToken c) \<and> truthy (refreshToken c)")
    case False
    with Inr assms show ?thesis by (simp add: getAccessToken_unauthenticated)
  next
    case True
    then obtain rt where rt: "refreshToken c = Some rt" "rt \<noteq> []"
      by (auto simp: truthy_Some)
    show ?thesis
    proof (cases "stale c now")
      case False
      with Inr True assms load_Inr [OF Inr] show ?thesis by (simp add: getAccessToken_fresh)
    next
      case stale: True
      show ?thesis
      proof (cases "refresh_answer (fetch (refresh_request c rt))")
        case (Inl e)
        with Inr True rt stale assms show ?thesis
          by (simp add: getAccessToken_refresh_fails [where e = e])
      next
        case (Inr p)
        obtain t expires where "p = (t, expires)" by (cases p)
        with Inr \<open>loadSpotifyConfig w = Inr c\<close> True rt stale assms show ?thesis
          by (simp add: getAccessToken_refreshed [where tok = t and expires = expires])
      qed
    qed
  qed
qed

text \<open>
  Claim C10. \<^verbatim>\<open>cachedAccessToken\<close> is written and never read: whatever it holds when
  \<^verbatim>\<open>getAccessToken\<close> is called, the call returns the same result, sends the same
  requests and leaves the same file; and a token that is returned is the access token
  of the record on disk when the call returns.
\<close>

theorem cache_write_only:
  "fst (getAccessToken fetch now (w\<lparr>cachedAccessToken := x\<rparr>))
     = fst (getAccessToken fetch now (w\<lparr>cachedAccessToken := y\<rparr>))
   \<and> sent (snd (getAccessToken fetch now (w\<lparr>cachedAccessToken := x\<rparr>)))
     = sent (snd (getAccessToken fetch now (w\<lparr>cachedAccessToken := y\<rparr>)))
   \<and> disk (snd (getAccessToken fetch now (w\<lparr>cachedAccessToken := x\<rparr>)))
     = disk (snd (getAccessToken fetch now (w\<lparr>cachedAccessToken := y\<rparr>)))
   \<and> (fst (getAccessToken fetch now (w\<lparr>cachedAccessToken := x\<rparr>)) = Inr tok \<longrightarrow>
        (\<exists>c. disk (snd (getAccessToken fetch now (w\<lparr>cachedAccessToken := x\<rparr>))) = Content c
           \<and> accessToken c = tok))"
  using getAccessToken_ignores_cache [where fetch = fetch and now = now and w = w and x = x and y = y]
    getAccessToken_returns_disk [where fetch = fetch and now = now
      and w = "w\<lparr>cachedAccessToken := x\<rparr>" and tok = tok]
  by blast

theorem cache_write_only_witness:
  "fst (getAccessToken token_200 2000 (w0\<lparr>cachedAccessToken := Some ''cached''\<rparr>))
     = fst (getAccessToken token_200 2000 (w0\<lparr>cachedAccessToken := None\<rparr>))
   \<and> sent (snd (getAccessToken token_200 2000 (w0\<lparr>cachedAccessToken := Some ''cached''\<rparr>)))
     = sent (snd (getAccessToken token_200 2000 (w0\<lparr>cachedAccessToken := None\<rparr>)))
   \<and> disk (snd (getAccessToken token_200 2000 (w0\<lparr>cachedAccessToken := Some ''cached''\<rparr>)))
     = disk (snd (getAccessToken token_200 2000 (w0\<lparr>cachedAccessToken := None\<rparr>)))
   \<and> fst (getAccessToken token_200 2000 (w0\<lparr>cachedAccessToken := Some ''cached''\<rparr>))
     = Inr (Some ''new'')
   \<and> (\<exists>c. disk (snd (getAccessToken token_200 2000 (w0\<lparr>cachedAccessToken := Some ''cached''\<rparr>)))
            = Content c \<and> accessToken c = Some ''new'')"
proof -
  have r: "fst (getAccessToken token_200 2000 (w0\<lparr>cachedAccessToken := Some ''cached''\<rparr>))
     = Inr (Some ''new'')"
    by (simp add: getAccessToken_def loadSpotifyConfig_def w0_def c0_def truthy_def
        shouldRefresh_def refreshAccessToken_def refresh_answer_def token_200_def ok_def
        Let_def saveSpotifyConfig_def)
  from cache_write_only [where fetch = token_200 and now = 2000 and w = w0
      and x = "Some ''cached''" and y = None and tok = "Some ''new''"] r
  show ?thesis by blast
qed

subsection \<open>Decimal digits\<close>

lemma digits_nonempty: "digits n \<noteq> []"
  by (subst digits.simps) simp

lemma digits_are_digits: "c \<in> set (digits n) \<Longrightarrow> 48 \<le> (of_char c :: nat) \<and> (of_char c :: nat) \<le> 57"
proof (induction n rule: digits.induct)
  case (1 n)
  show ?case
  proof (cases "n < 10")
    case True
    with "1.prems" have "c = char_of (48 + n)" by (subst (asm) digits.simps) simp
    with True show ?thesis by (simp add: of_char_of take_bit_nat_eq_self)
  next
    case False
    with "1.prems" have "c \<in> set (digits (n div 10)) \<or> c = char_of (48 + n mod 10)"
      by (subst (asm) digits.simps) auto
    then show ?thesis
    proof
      assume "c \<in> set (digits (n div 10))"
      with "1.IH" False show ?thesis by simp
    next
      assume "c = char_of (48 + n mod 10)"
      moreover have "n mod 10 < 10" by simp
      ultimately show ?thesis by (simp add: of_char_of take_bit_nat_eq_self)
    qed
  qed
qed

lemma char_of_digit_inj:
  assumes "a < 10" "b < 10" "(char_of (48 + a) :: char) = char_of (48 + (b::nat))"
  shows "a = (b::nat)"
proof -
  from assms(3) have "(of_char (char_of (48 + a) :: char) :: nat) = of_char (char_of (48 + b) :: char)"
    by simp
  with assms(1,2) show ?thesis by (simp add: of_char_of take_bit_nat_eq_self)
qed

lemma digits_inj: "digits n = digits m \<Longrightarrow> n = m"
proof (induction n arbitrary: m rule: digits.induct)
  case (1 n)
  show ?case
  proof (cases "n < 10")
    case True
    show ?thesis
    proof (cases "m < 10")
      case m: True
      from "1.prems" True m have "(char_of (48 + n) :: char) = char_of (48 + m)"
        by (subst (asm) digits.simps, subst (asm) (2) digits.simps) simp
      with True m show ?thesis by (rule char_of_digit_inj)
    next
      case False
      from "1.prems" True False have "[char_of (48 + n)] = digits (m div 10) @ [char_of (48 + m mod 10)]"
        by (subst (asm) digits.simps, subst (asm) (2) digits.simps) simp
      then have "digits (m div 10) = []" by simp
      with digits_nonempty show ?thesis by blast
    qed
  next
    case False
    show ?thesis
    proof (cases "m < 10")
      case True
      from "1.prems" True False have "digits (n div 10) @ [char_of (48 + n mod 10)] = [char_of (48 + m)]"
        by (subst (asm) digits.simps, subst (asm) (2) digits.simps) simp
      then have "digits (n div 10) = []" by simp
      with digits_nonempty show ?thesis by blast
    next
      case m: False
      from "1.prems" False m
      have "digits (n div 10) @ [char_of (48 + n mod 10)] = digits (m div 10) @ [char_of (48 + m mod 10)]"
        by (subst (asm) digits.simps, subst (asm) (2) digits.simps) simp
      then have a: "digits (n div 10) = digits (m div 10)"
        and b: "(char_of (48 + n mod 10) :: char) = char_of (48 + m mod 10)" by simp_all
      from "1.IH" [OF False a] have "n div 10 = m div 10" .
      moreover from b have "n mod 10 = m mod 10" by (intro char_of_digit_inj) simp_all
      ultimately show ?thesis by (metis div_mult_mod_eq)
    qed
  qed
qed

lemma split_at_mark:
  assumes "xs @ c # ys = xs' @ c # ys'" "c \<notin> set xs" "c \<notin> set xs'"
  shows "xs = xs' \<and> ys = ys'"
  using assms
proof (induction xs arbitrary: xs')
  case Nil
  then show ?case by (cases xs') auto
next
  case (Cons x xs)
  then show ?case by (cases xs') auto
qed

lemma ApiError_inj: "ApiError s b = ApiError s' b' \<Longrightarrow> s = s' \<and> b = b'"
proof -
  assume "ApiError s b = ApiError s' b'"
  then have e: "digits s @ CHR '')'' # ('': '' @ b) = digits s' @ CHR '')'' # ('': '' @ b')"
    by (simp add: ApiError_def String_of_def)
  have "CHR '')'' \<notin> set (digits s)" "CHR '')'' \<notin> set (digits s')"
    using digits_are_digits [of "CHR '')''"] by auto
  from split_at_mark [OF e this] show ?thesis by (auto dest: digits_inj)
qed


subsection \<open>The request gateway\<close>

lemma spotifyFetch_after_token:
  "getAccessToken token_endpoint now w = (Inr tok, w1) \<Longrightarrow>
   spotifyFetch token_endpoint api now endpoint options w =
     (case api (api_request tok endpoint options) of
        Fails m \<Rightarrow> Inl (Error m)
      | Responds r \<Rightarrow>
          if \<not> ok r then Inl (ApiError (status r) (response_text r))
          else if response_text r = [] then Inr None
          else (case json r of Inr v \<Rightarrow> Inr (Some v) | Inl _ \<Rightarrow> Inr None),
      w1\<lparr>sent := sent w1 @ [api_request tok endpoint options]\<rparr>)"
  by (simp add: spotifyFetch_def Let_def ApiError_def split: fetch_result.splits sum.splits)

text \<open>
  Claim C2. Once \<^verbatim>\<open>spotifyFetch\<close> has a token and \<^verbatim>\<open>fetch\<close> has resolved with a
  response: a status that is not 2xx fails with \<open>ApiError\<close> of the status and the text
  of the response, and the status and the text can be read back from that error; a 2xx
  response returns the decoded body, and \<^verbatim>\<open>undefined\<close> when the text is empty or does
  not decode.
\<close>

theorem spotifyFetch_result:
  assumes "getAccessToken token_endpoint now w = (Inr tok, w1)"
    and "api (api_request tok endpoint options) = Responds r"
  shows "(\<not> ok r \<longrightarrow>
            fst (spotifyFetch token_endpoint api now endpoint options w)
              = Inl (ApiError (status r) (response_text r)))
       \<and> (ok r \<and> response_text r \<noteq> [] \<and> json r = Inr v \<longrightarrow>
            fst (spotifyFetch token_endpoint api now endpoint options w) = Inr (Some v))
       \<and> (ok r \<and> (response_text r = [] \<or> isl (json r)) \<longrightarrow>
            fst (spotifyFetch token_endpoint api now endpoint options w) = Inr None)
       \<and> (ApiError (status r) (response_text r) = ApiError st txt \<longrightarrow>
            st = status r \<and> txt = response_text r)"
proof -
  note f = spotifyFetch_after_token [OF assms(1), of api endpoint options]
  have 1: "fst (spotifyFetch token_endpoint api now endpoint options w)
      = Inl (ApiError (status r) (response_text r))" if "\<not> ok r"
    using f assms(2) that by simp
  have 2: "fst (spotifyFetch token_endpoint api now endpoint options w) = Inr (Some v)"
    if "ok r" "response_text r \<noteq> []" "json r = Inr v"
    using f assms(2) that by simp
  have 3: "fst (spotifyFetch token_endpoint api now endpoint options w) = Inr None"
    if "ok r" "response_text r = [] \<or> isl (json r)"
    using f assms(2) that by (auto simp: isl_def)
  have 4: "st = status r \<and> txt = response_text r"
    if "ApiError (status r) (response_text r) = ApiError st txt"
    using ApiError_inj [OF that] by simp
  from 1 2 3 4 show ?thesis by blast
qed

lemma w_fresh_token:
  "getAccessToken token_400 2000 w_fresh = (Inr (Some ''old''), w_fresh\<lparr>cachedAccessToken := Some ''old''\<rparr>)"
  by (simp add: getAccessToken_def loadSpotifyConfig_def w_fresh_def w0_def c0_def truthy_def
      shouldRefresh_def)

theorem spotifyFetch_result_witness:
  "fst (spotifyFetch token_400 api_404 2000 ''/albums/bad-id'' \<lparr>opt_method = None, opt_body = None, opt_params = None\<rparr> w_fresh)
     = Inl (ApiError 404 ''no such album'')
   \<and> fst (spotifyFetch token_400 api_204 2000 ''/me/player/pause'' \<lparr>opt_method = Some ''PUT'', opt_body = None, opt_params = None\<rparr> w_fresh)
     = Inr None
   \<and> fst (spotifyFetch token_400 api_200 2000 ''/me'' \<lparr>opt_method = None, opt_body = None, opt_params = None\<rparr> w_fresh)
     = Inr (Some 7)"
proof -
  have 1: "fst (spotifyFetch token_400 api_404 2000 ''/albums/bad-id'' \<lparr>opt_method = None, opt_body = None, opt_params = None\<rparr> w_fresh)
     = Inl (ApiError 404 ''no such album'')"
    using spotifyFetch_result [OF w_fresh_token, where api = api_404
        and r = "\<lparr>status = 404, response_text = ''no such album'', json = Inl ''Unexpected token''\<rparr>"]
    by (simp add: api_404_def ok_def)
  have 2: "fst (spotifyFetch token_400 api_204 2000 ''/me/player/pause'' \<lparr>opt_method = Some ''PUT'', opt_body = None, opt_params = None\<rparr> w_fresh)
     = Inr None"
    using spotifyFetch_result [OF w_fresh_token, where api = api_204
        and r = "\<lparr>status = 204, response_text = [], json = Inl ''Unexpected end of JSON input''\<rparr>"]
    by (simp add: api_204_def ok_def)
  have 3: "fst (spotifyFetch token_400 api_200 2000 ''/me'' \<lparr>opt_method = None, opt_body = None, opt_params = None\<rparr> w_fresh)
     = Inr (Some 7)"
    using spotifyFetch_result [OF w_fresh_token, where api = api_200
        and r = "\<lparr>status = 200, response_text = ''7'', json = Inr 7\<rparr>" and v = 7]
    by (simp add: api_200_def ok_def)
  from 1 2 3 show ?thesis by blast
qed

lemma toString_empty: "URLSearchParams_toString ps = [] \<longleftrightarrow> ps = []"
  by (cases ps rule: URLSearchParams_toString.cases) simp_all

lemma append_params_defined:
  "append_params ps acc = acc @ defined_params (Some ps)"
  by (induction ps acc rule: append_params.induct)
     (simp_all add: defined_params_def split: option.splits)

lemma defined_params_filter:
  "defined_params (map_option (filter (\<lambda>(k, v). v \<noteq> None)) params) = defined_params params"
proof (cases params)
  case None
  then show ?thesis by simp
next
  case (Some ps)
  have "defined_params (Some (filter (\<lambda>(k, v). v \<noteq> None) ps)) = defined_params (Some ps)"
    by (induction ps) (auto simp: defined_params_def)
  with Some show ?thesis by simp
qed

lemma request_url_defined:
  "request_url endpoint params =
     (if defined_params params = [] then SPOTIFY_API_BASE @ endpoint
      else SPOTIFY_API_BASE @ endpoint @ ''?'' @ URLSearchParams_toString (defined_params params))"
  by (cases params)
     (simp_all add: request_url_def Let_def append_params_defined toString_empty defined_params_def)

text \<open>
  Claim C8. The request \<^verbatim>\<open>spotifyFetch\<close> sends: parameters without a value leave the
  URL unchanged (the URL is the one built from the parameters that have a value); the
  URL is the base and the endpoint alone exactly when no parameter has a value, and
  otherwise ends in \<^verbatim>\<open>?\<close> and the encoded pairs; the header
  \<^verbatim>\<open>Authorization: Bearer <token>\<close> is always there; \<^verbatim>\<open>Content-Type\<close> is there, as
  \<^verbatim>\<open>application/json\<close>, exactly when the options have a body.
\<close>

theorem request_construction:
  assumes "getAccessToken token_endpoint now w = (Inr tok, w1)"
  shows "sent (snd (spotifyFetch token_endpoint api now endpoint options w))
           = sent w1 @ [api_request tok endpoint options]
       \<and> url (api_request tok endpoint options)
           = url (api_request tok endpoint
                   (options\<lparr>opt_params := map_option (filter (\<lambda>(k, v). v \<noteq> None)) (opt_params options)\<rparr>))
       \<and> (url (api_request tok endpoint options) = SPOTIFY_API_BASE @ endpoint
            \<longleftrightarrow> defined_params (opt_params options) = [])
       \<and> (defined_params (opt_params options) \<noteq> [] \<longrightarrow>
            url (api_request tok endpoint options)
              = SPOTIFY_API_BASE @ endpoint @ ''?''
                @ URLSearchParams_toString (defined_params (opt_params options)))
       \<and> (''Authorization'', ''Bearer '' @ template tok) \<in> set (headers (api_request tok endpoint options))
       \<and> (''Content-Type'' \<in> fst ` set (headers (api_request tok endpoint options))
            \<longleftrightarrow> opt_body options \<noteq> None)
       \<and> ((''Content-Type'', ''application/json'') \<in> set (headers (api_request tok endpoint options))
            \<longleftrightarrow> opt_body options \<noteq> None)"
proof -
  have 1: "sent (snd (spotifyFetch token_endpoint api now endpoint options w))
           = sent w1 @ [api_request tok endpoint options]"
    by (simp add: spotifyFetch_after_token [OF assms])
  have u: "url (api_request tok endpoint opts) = request_url endpoint (opt_params opts)"
    for opts :: "'a SpotifyFetchOptions"
    by (simp add: api_request_def)
  have 2: "url (api_request tok endpoint options)
           = url (api_request tok endpoint
                   (options\<lparr>opt_params := map_option (filter (\<lambda>(k, v). v \<noteq> None)) (opt_params options)\<rparr>))"
    using defined_params_filter [of "opt_params options"] by (simp add: u request_url_defined)
  have 3: "url (api_request tok endpoint options) = SPOTIFY_API_BASE @ endpoint
            \<longleftrightarrow> defined_params (opt_params options) = []"
    by (simp add: u request_url_defined)
  have 4: "defined_params (opt_params options) \<noteq> [] \<Longrightarrow>
            url (api_request tok endpoint options)
              = SPOTIFY_API_BASE @ endpoint @ ''?''
                @ URLSearchParams_toString (defined_params (opt_params options))"
    by (simp add: u request_url_defined)
  have 5: "(''Authorization'', ''Bearer '' @ template tok) \<in> set (headers (api_request tok endpoint options))"
    by (simp add: api_request_def request_headers_def)
  have 6: "''Content-Type'' \<in> fst ` set (headers (api_request tok endpoint options))
            \<longleftrightarrow> opt_body options \<noteq> None"
    by (cases "opt_body options") (simp_all add: api_request_def request_headers_def)
  have 7: "(''Content-Type'', ''application/json'') \<in> set (headers (api_request tok endpoint options))
            \<longleftrightarrow> opt_body options \<noteq> None"
    by (cases "opt_body options") (simp_all add: api_request_def request_headers_def)
  from 1 2 3 4 5 6 7 show ?thesis by blast
qed

theorem request_construction_witness:
  "sent (snd (spotifyFetch token_400 api_200 2000 ''/search'' search_options w_fresh))
     = [api_request (Some ''old'') ''/search'' search_options]
   \<and> defined_params (opt_params search_options) = [(''q'', ''daft punk''), (''limit'', ''10'')]
   \<and> url (api_request (Some ''old'') ''/search'' search_options)
       = ''https://api.spotify.com/v1/search?q=daft+punk&limit=10''
   \<and> (''Authorization'', ''Bearer old'') \<in> set (headers (api_request (Some ''old'') ''/search'' search_options))
   \<and> ''Content-Type'' \<notin> fst ` set (headers (api_request (Some ''old'') ''/search'' search_options))
   \<and> defined_params (opt_params play_options) = []
   \<and> url (api_request (Some ''old'') ''/me/player/play'' play_options)
       = ''https://api.spotify.com/v1/me/player/play''
   \<and> (''Content-Type'', ''application/json'')
       \<in> set (headers (api_request (Some ''old'') ''/me/player/play'' play_options))"
proof -
  have d: "defined_params (opt_params search_options) = [(''q'', ''daft punk''), (''limit'', ''10'')]"
  proof -
    have "String_of 10 = ''10''" by code_simp
    then show ?thesis by (simp add: defined_params_def search_options_def String_value_def)
  qed
  have q: "URLSearchParams_toString [(''q'', ''daft punk''), (''limit'', ''10'')] = ''q=daft+punk&limit=10''"
    by (simp add: urlencode_def urlencode_byte_def)
  have p: "defined_params (opt_params play_options) = []"
    by (simp add: defined_params_def play_options_def)
  have b: "opt_body search_options = None" "opt_body play_options \<noteq> None"
    by (simp_all add: search_options_def play_options_def)
  have s: "sent w_fresh = []" by (simp add: w_fresh_def w0_def)
  note t1 = request_construction [OF w_fresh_token, where api = api_200 and endpoint = "''/search''"
      and options = search_options]
  note t2 = request_construction [OF w_fresh_token, where api = api_200
      and endpoint = "''/me/player/play''" and options = play_options]
  from t1 have "sent (snd (spotifyFetch token_400 api_200 2000 ''/search'' search_options w_fresh))
     = sent (w_fresh\<lparr>cachedAccessToken := Some ''old''\<rparr>)
       @ [api_request (Some ''old'') ''/search'' search_options]" by blast
  with s have 1: "sent (snd (spotifyFetch token_400 api_200 2000 ''/search'' search_options w_fresh))
     = [api_request (Some ''old'') ''/search'' search_options]" by simp
  from t1 have "defined_params (opt_params search_options) \<noteq> [] \<longrightarrow>
      url (api_request (Some ''old'') ''/search'' search_options)
        = SPOTIFY_API_BASE @ ''/search'' @ ''?''
          @ URLSearchParams_toString (defined_params (opt_params search_options))"
    by blast
  with d q have 2: "url (api_request (Some ''old'') ''/search'' search_options)
       = ''https://api.spotify.com/v1/search?q=daft+punk&limit=10''"
    by (simp add: SPOTIFY_API_BASE_def)
  from t1 have "(''Authorization'', ''Bearer '' @ template (Some ''old''))
      \<in> set (headers (api_request (Some ''old'') ''/search'' search_options))"
    by blast
  then have 3: "(''Authorization'', ''Bearer old'') \<in> set (headers (api_request (Some ''old'') ''/search'' search_options))"
    by (simp add: template_def)
  from t1 b have 4: "''Content-Type'' \<notin> fst ` set (headers (api_request (Some ''old'') ''/search'' search_options))"
    by blast
  from t2 have "url (api_request (Some ''old'') ''/me/player/play'' play_options)
      = SPOTIFY_API_BASE @ ''/me/player/play'' \<longleftrightarrow> defined_params (opt_params play_options) = []"
    by blast
  with p have 5: "url (api_request (Some ''old'') ''/me/player/play'' play_options)
       = ''https://api.spotify.com/v1/me/player/play''"
    by (simp add: SPOTIFY_API_BASE_def)
  from t2 b have 6: "(''Content-Type'', ''application/json'')
       \<in> set (headers (api_request (Some ''old'') ''/me/player/play'' play_options))"
    by blast
  from 1 d 2 3 4 p 5 6 show ?thesis by blast
qed

subsection \<open>One step of the authorization flow\<close>

lemma flow0_started: "authorizeSpotify URL0 random0 w0 = Listening flow0"
  by (simp add: authorizeSpotify_def loadSpotifyConfig_def w0_def c0_def truthy_def template_def
      URL0_def generateRandomString_def random0_def flow0_def)

lemma settle_eq:
  "settle outcome s =
     (if promise s = Pending then s\<lparr>promise := outcome, effects := effects s @ [Settles outcome]\<rparr>
      else s)"
  by (simp add: settle_def)

lemma reject_eq:
  "reject e s =
     (if promise s = Pending
      then s\<lparr>promise := Rejected e, effects := effects s @ [Settles (Rejected e)]\<rparr> else s)"
  by (simp add: reject_def settle_eq)

lemma resolve_eq:
  "resolve s =
     (if promise s = Pending
      then s\<lparr>promise := Fulfilled, effects := effects s @ [Settles Fulfilled]\<rparr> else s)"
  by (simp add: resolve_def settle_eq)

lemma step_NoUrl:
  "step (Request NoUrl) s = s\<lparr>effects := effects s @ [End_response ''No URL provided'']\<rparr>"
  by (simp add: step_def handler_def res_end_def)

lemma step_other_path:
  "path \<noteq> callbackPath s \<Longrightarrow>
   step (Request (Url path code rs err)) s
     = s\<lparr>effects := effects s @ [WriteHead 404, End_response []]\<rparr>"
  by (simp add: step_def handler_def res_end_def writeHead_def)

lemma step_denied:
  "truthy err \<Longrightarrow>
   step (Request (Url (callbackPath s) code rs err)) s
     = reject (AuthorizationDenied (template err))
         (s\<lparr>listening := False,
            effects := effects s @ [WriteHead 200, End_response page_failed, Server_close]\<rparr>)"
  by (simp add: step_def handler_def res_end_def writeHead_def server_close_def Let_def
      AuthorizationDenied_def)

lemma step_mismatch:
  "\<not> truthy err \<Longrightarrow> rs \<noteq> Some (state s) \<Longrightarrow>
   step (Request (Url (callbackPath s) code rs err)) s
     = reject StateMismatch
         (s\<lparr>listening := False,
            effects := effects s @ [WriteHead 200, End_response page_state, Server_close]\<rparr>)"
  by (simp add: step_def handler_def res_end_def writeHead_def server_close_def Let_def
      StateMismatch_def)

lemma step_no_code:
  "\<not> truthy err \<Longrightarrow> rs = Some (state s) \<Longrightarrow> \<not> truthy code \<Longrightarrow>
   step (Request (Url (callbackPath s) code rs err)) s
     = reject MissingCode
         (s\<lparr>listening := False,
            effects := effects s @ [WriteHead 200, End_response page_no_code, Server_close]\<rparr>)"
  by (simp add: step_def handler_def res_end_def writeHead_def server_close_def Let_def
      MissingCode_def)

lemma step_valid:
  "\<not> truthy err \<Longrightarrow> rs = Some (state s) \<Longrightarrow> truthy code \<Longrightarrow>
   step (Request (Url (callbackPath s) code rs err)) s
     = s\<lparr>world := (world s)\<lparr>sent := sent (world s)
                     @ [exchange_request (template code) (config s)]\<rparr>,
          awaiting := Suc (awaiting s),
          effects := effects s @ [WriteHead 200]\<rparr>"
  by (simp add: step_def handler_def writeHead_def Let_def)

lemma step_no_exchange: "awaiting s = 0 \<Longrightarrow> step (Token_response answer now) s = s"
  by (simp add: step_def)

lemma step_exchange_failed:
  "awaiting s \<noteq> 0 \<Longrightarrow> exchangeCodeForToken answer = Inl e \<Longrightarrow>
   step (Token_response answer now) s
     = reject e
         (s\<lparr>awaiting := awaiting s - 1, listening := False,
            effects := effects s @ [End_response page_exchange, Server_close]\<rparr>)"
  by (simp add: step_def handler_resume_def res_end_def server_close_def)

lemma step_exchanged:
  "awaiting s \<noteq> 0 \<Longrightarrow> exchangeCodeForToken answer = Inr (access, refresh, expires) \<Longrightarrow>
   step (Token_response answer now) s
     = resolve
         (s\<lparr>awaiting := awaiting s - 1,
            config := (config s)\<lparr>accessToken := access, refreshToken := refresh,
                                  expiresAt := Some (int now + expires * 1000)\<rparr>,
            world := (world s)\<lparr>disk := Content ((config s)\<lparr>accessToken := access,
                                  refreshToken := refresh,
                                  expiresAt := Some (int now + expires * 1000)\<rparr>)\<rparr>,
            listening := False,
            effects := effects s @ [End_response page_success, Server_close]\<rparr>)"
  by (simp add: step_def handler_resume_def res_end_def server_close_def Let_def
      saveSpotifyConfig_def)

lemma step_server_error: "step (Server_error m) s = reject (Error m) s"
  by (simp add: step_def)

text \<open>The shapes a step can take.\<close>

lemma step_cases [case_names ignored reply suspend terminal exchange_failed exchanged server_error]:
  obtains
    (ignored) "step ev s = s"
  | (reply) es where "step ev s = s\<lparr>effects := effects s @ es\<rparr>" "settlements es = []"
  | (suspend) req where
      "step ev s = s\<lparr>world := (world s)\<lparr>sent := sent (world s) @ [req]\<rparr>,
                       awaiting := Suc (awaiting s), effects := effects s @ [WriteHead 200]\<rparr>"
  | (terminal) e page where
      "step ev s = reject e (s\<lparr>listening := False,
                        effects := effects s @ [WriteHead 200, End_response page, Server_close]\<rparr>)"
  | (exchange_failed) e where "awaiting s \<noteq> 0"
      "step ev s = reject e (s\<lparr>awaiting := awaiting s - 1, listening := False,
                        effects := effects s @ [End_response page_exchange, Server_close]\<rparr>)"
  | (exchanged) answer now access refresh expires where "ev = Token_response answer now"
      "awaiting s \<noteq> 0" "exchangeCodeForToken answer = Inr (access, refresh, expires)"
      "step ev s = resolve
         (s\<lparr>awaiting := awaiting s - 1,
            config := (config s)\<lparr>accessToken := access, refreshToken := refresh,
                                  expiresAt := Some (int now + expires * 1000)\<rparr>,
            world := (world s)\<lparr>disk := Content ((config s)\<lparr>accessToken := access,
                                  refreshToken := refresh,
                                  expiresAt := Some (int now + expires * 1000)\<rparr>)\<rparr>,
            listening := False,
            effects := effects s @ [End_response page_success, Server_close]\<rparr>)"
  | (server_error) m where "ev = Server_error m" "step ev s = reject (Error m) s"
proof (cases ev)
  case (Request req)
  show ?thesis
  proof (cases req)
    case NoUrl
    with Request reply [of "[End_response ''No URL provided'']"] show ?thesis
      by (simp add: step_NoUrl)
  next
    case (Url path code rs err)
    show ?thesis
    proof (cases "path = callbackPath s")
      case False
      with Request Url reply [of "[WriteHead 404, End_response []]"] show ?thesis
        by (simp add: step_other_path)
    next
      case path: True
      show ?thesis
      proof (cases "truthy err")
        case True
        with Request Url path terminal show ?thesis
          by (simp add: step_denied)
      next
        case err: False
        show ?thesis
        proof (cases "rs = Some (state s)")
          case False
          with Request Url path err terminal show ?thesis
            by (simp add: step_mismatch)
        next
          case rs: True
          show ?thesis
          proof (cases "truthy code")
            case False
            with Request Url path err rs terminal show ?thesis
              by (simp add: step_no_code)
          next
            case True
            with Request Url path err rs suspend show ?thesis
              by (simp add: step_valid)
          qed
        qed
      qed
    qed
  qed
next
  case (Token_response answer now)
  show ?thesis
  proof (cases "awaiting s = 0")
    case True
    with Token_response ignored show ?thesis by (simp add: step_no_exchange)
  next
    case False
    show ?thesis
    proof (cases "exchangeCodeForToken answer")
      case (Inl e)
      with Token_response False exchange_failed show ?thesis
        by (simp add: step_exchange_failed)
    next
      case (Inr p)
      obtain access refresh expires where "p = (access, refresh, expires)" by (cases p)
      with Inr Token_response False exchanged show ?thesis
        by (simp add: step_exchanged)
    qed
  qed
next
  case (Server_error m)
  with server_error show ?thesis by (simp add: step_server_error)
qed

text \<open>The exchange fails exactly when the request to the token endpoint failed, with
  the error the specification names.\<close>

lemma exchange_failed_iff:
  "request_failed answer \<Longrightarrow> exchangeCodeForToken answer = Inl (TokenExchangeFailed answer)"
  by (cases answer)
     (auto simp: request_failed_def exchangeCodeForToken_def TokenExchangeFailed_def isl_def)


subsection \<open>Traces\<close>

lemma settlements_append [simp]: "settlements (xs @ ys) = settlements xs @ settlements ys"
  by (induction xs) (simp_all split: effect.splits)


lemma closed_before_Nil [simp]: "closed_before_settling []"
  by (simp add: closed_before_settling_def)



subsection \<open>Runs of the authorization flow\<close>

lemma run_append: "run (xs @ ys) s = run ys (run xs s)"
  by (induction xs arbitrary: s) simp_all

lemma run_snoc: "run (xs @ [ev]) s = step ev (run xs s)"
  by (simp add: run_append)

lemma step_settled: "promise s \<noteq> Pending \<Longrightarrow> promise (step ev s) = promise s"
  by (cases ev s rule: step_cases) (simp_all add: reject_eq resolve_eq)

lemma run_settled: "promise s \<noteq> Pending \<Longrightarrow> promise (run evs s) = promise s"
  by (induction evs arbitrary: s) (simp_all add: step_settled)

lemma step_constants:
  "state (step ev s) = state s \<and> callbackPath (step ev s) = callbackPath s
   \<and> CONFIG_FILE (world (step ev s)) = CONFIG_FILE (world s)"
  by (cases ev s rule: step_cases) (simp_all add: reject_eq resolve_eq)

lemma run_constants:
  "state (run evs s) = state s \<and> callbackPath (run evs s) = callbackPath s"
  by (induction evs arbitrary: s) (simp_all add: step_constants)





lemma started:
  assumes "authorizeSpotify URL random w = Listening s0"
  shows "world s0 = w" "loadSpotifyConfig w = Inr (config s0)" "listening s0"
    "promise s0 = Pending" "awaiting s0 = 0" "effects s0 = []"
  using assms
  by (auto simp: authorizeSpotify_def split: sum.splits option.splits if_splits)



text \<open>A pending flow is listening and has written nothing; a closed listener stays
  closed; the file changes only when a token exchange is answered successfully.\<close>

lemma step_pending:
  assumes "promise s = Pending \<longrightarrow> listening s \<and> disk (world s) = d"
  shows "promise (step ev s) = Pending \<longrightarrow> listening (step ev s) \<and> disk (world (step ev s)) = d"
  using assms
  by (cases ev s rule: step_cases) (auto simp: reject_eq resolve_eq)

lemma run_pending:
  "promise s = Pending \<longrightarrow> listening s \<and> disk (world s) = d \<Longrightarrow>
   promise (run evs s) = Pending \<longrightarrow> listening (run evs s) \<and> disk (world (run evs s)) = d"
proof (induction evs arbitrary: s)
  case Nil
  then show ?case by simp
next
  case (Cons ev evs)
  from step_pending [OF Cons.prems] Cons.IH [of "step ev s"] show ?case by simp
qed

lemma step_stays_closed: "\<not> listening s \<Longrightarrow> \<not> listening (step ev s)"
  by (cases ev s rule: step_cases) (simp_all add: reject_eq resolve_eq)

lemma run_stays_closed: "\<not> listening s \<Longrightarrow> \<not> listening (run evs s)"
  by (induction evs arbitrary: s) (simp_all add: step_stays_closed)

lemma step_disk:
  assumes "\<forall>answer now. ev = Token_response answer now \<longrightarrow> request_failed answer"
  shows "disk (world (step ev s)) = disk (world s)"
proof (cases ev s rule: step_cases)
  case (exchanged answer now access refresh expires)
  with assms exchange_failed_iff [of answer] show ?thesis by simp
qed (simp_all add: reject_eq)

lemma run_disk:
  "\<forall>answer now. Token_response answer now \<in> set evs \<longrightarrow> request_failed answer \<Longrightarrow>
   disk (world (run evs s)) = disk (world s)"
proof (induction evs arbitrary: s)
  case Nil
  then show ?case by simp
next
  case (Cons ev evs)
  from Cons.prems
  have "\<forall>answer now. ev = Token_response answer now \<longrightarrow> request_failed answer" by simp
  from step_disk [OF this, of s] Cons.prems Cons.IH [of "step ev s"] show ?case by simp
qed



lemma flow_single_callback:
  assumes "promise s = Pending" "awaiting s = 0"
    and "truthy code" "\<not> truthy err" "ok r" "json r = Inr d"
  shows "run [Request (Url (callbackPath s) code (Some (state s)) err),
              Token_response (Responds r) now] s
       = s\<lparr>world := (world s)\<lparr>sent := sent (world s) @ [exchange_request (template code) (config s)],
                 disk := Content ((config s)\<lparr>accessToken := access_token d,
                    refreshToken := refresh_token d,
                    expiresAt := Some (int now
                      + (case expires_in d of None \<Rightarrow> 3600 | Some n \<Rightarrow> if n = 0 then 3600 else n)
                        * 1000)\<rparr>)\<rparr>,
            config := (config s)\<lparr>accessToken := access_token d,
                    refreshToken := refresh_token d,
                    expiresAt := Some (int now
                      + (case expires_in d of None \<Rightarrow> 3600 | Some n \<Rightarrow> if n = 0 then 3600 else n)
                        * 1000)\<rparr>,
            listening := False, promise := Fulfilled,
            effects := effects s @ [WriteHead 200, End_response page_success, Server_close,
                                    Settles Fulfilled]\<rparr>"
proof -
  have x: "exchangeCodeForToken (Responds r)
      = Inr (access_token d, refresh_token d,
             (case expires_in d of None \<Rightarrow> 3600 | Some n \<Rightarrow> if n = 0 then 3600 else n))"
    using assms(5,6) by (simp add: exchangeCodeForToken_def)
  let ?s1 = "s\<lparr>world := (world s)\<lparr>sent := sent (world s)
                     @ [exchange_request (template code) (config s)]\<rparr>,
          awaiting := Suc (awaiting s),
          effects := effects s @ [WriteHead 200]\<rparr>"
  have 1: "step (Request (Url (callbackPath s) code (Some (state s)) err)) s = ?s1"
    using assms(3,4) by (simp add: step_valid)
  have "awaiting ?s1 \<noteq> 0" by simp
  from step_exchanged [OF this x, of now] assms(1,2) 1 show ?thesis
    by (simp add: resolve_eq)
qed

text \<open>What a fulfilled flow has stored, and the token pair.\<close>

lemma step_authorized:
  assumes "promise s = Fulfilled \<longrightarrow> authorized_until t0 (disk (world s))"
    and "\<forall>answer now. ev = Token_response answer now \<longrightarrow> grants_tokens answer \<and> t0 \<le> now"
  shows "promise (step ev s) = Fulfilled \<longrightarrow> authorized_until t0 (disk (world (step ev s)))"
proof (cases ev s rule: step_cases)
  case (exchanged answer now access refresh expires)
  with assms(2) have "truthy access" "truthy refresh" "0 < expires" "t0 \<le> now"
    by (auto simp: grants_tokens_def)
  with exchanged show ?thesis by (simp add: resolve_eq authorized_until_def)
qed (use assms(1) in \<open>auto simp: reject_eq\<close>)

lemma run_authorized:
  "promise s = Fulfilled \<longrightarrow> authorized_until t0 (disk (world s)) \<Longrightarrow>
   \<forall>answer now. Token_response answer now \<in> set evs \<longrightarrow> grants_tokens answer \<and> t0 \<le> now \<Longrightarrow>
   promise (run evs s) = Fulfilled \<longrightarrow> authorized_until t0 (disk (world (run evs s)))"
proof (induction evs arbitrary: s)
  case Nil
  then show ?case by simp
next
  case (Cons ev evs)
  from Cons.prems(2)
  have "\<forall>answer now. ev = Token_response answer now \<longrightarrow> grants_tokens answer \<and> t0 \<le> now"
    by simp
  from step_authorized [OF Cons.prems(1) this] Cons.prems(2) Cons.IH [of "step ev s"]
  show ?case by simp
qed

lemma step_token_pair:
  assumes "token_pair (disk (world s))"
    and "\<forall>answer now. ev = Token_response answer now \<longrightarrow> grants_pair answer"
  shows "token_pair (disk (world (step ev s)))"
proof (cases ev s rule: step_cases)
  case (exchanged answer now access refresh expires)
  with assms(2) have "truthy access \<longleftrightarrow> truthy refresh" by (auto simp: grants_pair_def)
  with exchanged show ?thesis by (simp add: resolve_eq token_pair_def)
qed (use assms(1) in \<open>auto simp: reject_eq\<close>)

lemma run_token_pair:
  "token_pair (disk (world s)) \<Longrightarrow>
   \<forall>answer now. Token_response answer now \<in> set evs \<longrightarrow> grants_pair answer \<Longrightarrow>
   token_pair (disk (world (run evs s)))"
proof (induction evs arbitrary: s)
  case Nil
  then show ?case by simp
next
  case (Cons ev evs)
  from Cons.prems(2) have "\<forall>answer now. ev = Token_response answer now \<longrightarrow> grants_pair answer"
    by simp
  from step_token_pair [OF Cons.prems(1) this] Cons.prems(2) Cons.IH [of "step ev s"]
  show ?case by simp
qed

lemma refresh_answer_Inr:
  "refresh_answer answer = Inr (tok, expires) \<Longrightarrow>
   \<exists>r d. answer = Responds r \<and> ok r \<and> json r = Inr d \<and> tok = access_token d"
  by (auto simp: refresh_answer_def split: fetch_result.splits if_splits sum.splits)

lemma getAccessToken_token_pair:
  assumes "token_pair (disk w)"
    and "\<forall>req r d. fetch req = Responds r \<and> ok r \<and> json r = Inr d \<longrightarrow> truthy (access_token d)"
  shows "token_pair (disk (snd (getAccessToken fetch now w)))"
proof (cases "loadSpotifyConfig w")
  case (Inl e)
  with assms(1) show ?thesis by (simp add: getAccessToken_load_fails)
next
  case (Inr c)
  show ?thesis
  proof (cases "truthy (accessToken c) \<and> truthy (refreshToken c)")
    case False
    with Inr assms(1) show ?thesis by (simp add: getAccessToken_unauthenticated)
  next
    case True
    then obtain rt where rt: "refreshToken c = Some rt" "rt \<noteq> []"
      by (auto simp: truthy_Some)
    show ?thesis
    proof (cases "stale c now")
      case False
      with Inr True assms(1) show ?thesis by (simp add: getAccessToken_fresh)
    next
      case stale: True
      show ?thesis
      proof (cases "refresh_answer (fetch (refresh_request c rt))")
        case (Inl e)
        with Inr True rt stale assms(1) show ?thesis
          by (simp add: getAccessToken_refresh_fails [where e = e])
      next
        case (Inr p)
        obtain tok expires where p: "p = (tok, expires)" by (cases p)
        with Inr refresh_answer_Inr assms(2) have "truthy tok" by blast
        with p Inr \<open>loadSpotifyConfig w = Inr c\<close> True rt stale show ?thesis
          by (simp add: getAccessToken_refreshed [where tok = tok and expires = expires]
              token_pair_def)
      qed
    qed
  qed
qed

text \<open>Evaluating the example flows.\<close>

lemmas flow_eval =
  flow0_def step_def handler_def handler_resume_def exchangeCodeForToken_def writeHead_def
  res_end_def server_close_def settle_def resolve_def reject_def saveSpotifyConfig_def
  callback_ok_def callback_mismatch_def favicon_def granted_def empty_grant_def half_grant_def
  refused_def listener_error_def
  ok_def truthy_def template_def Let_def w0_def c0_def

subsection \<open>The authorization flow settles once\<close>




subsection \<open>A callback with the wrong state\<close>

text \<open>
  A callback with the wrong state rejects the flow with \<open>StateMismatch\<close>, and tokens
  are saved all the same: by a valid callback that arrives afterwards on a connection
  still open, which the handler exchanges like any other, and by a valid callback
  whose exchange was in flight when the wrong state arrived. The file is no longer the
  record the flow started with.
\<close>

theorem state_mismatch_counterexample:
  "authorizeSpotify URL0 random0 w0 = Listening flow0
   \<and> promise (run [callback_mismatch, callback_ok, Token_response granted 5000] flow0)
       = Rejected StateMismatch
   \<and> disk (world (run [callback_mismatch, callback_ok, Token_response granted 5000] flow0))
       = Content (c0\<lparr>accessToken := Some ''A'', refreshToken := Some ''R2'',
                     expiresAt := Some 3605000\<rparr>)
   \<and> promise (run [callback_ok, callback_mismatch, Token_response granted 5000] flow0)
       = Rejected StateMismatch
   \<and> disk (world (run [callback_ok, callback_mismatch, Token_response granted 5000] flow0))
       = Content (c0\<lparr>accessToken := Some ''A'', refreshToken := Some ''R2'',
                     expiresAt := Some 3605000\<rparr>)
   \<and> disk w0 = Content c0
   \<and> accessToken c0 = Some ''old''"
  by (simp add: flow0_started) (simp add: flow_eval StateMismatch_def)

text \<open>
  Claim C6, amended. A callback on the registered path with no \<^verbatim>\<open>error\<close> parameter and
  a state other than the generated one, received while the flow is pending: the flow
  is rejected with \<open>StateMismatch\<close> and stays so, the listener is closed and stays
  closed, handling the request sends nothing and writes nothing, and the file is still
  what it was when the flow started. The file stays unchanged afterwards as long as no
  token exchange is answered successfully: every answer of the token endpoint that
  follows is a failed request.
\<close>

theorem state_mismatch_rejects:
  assumes "authorizeSpotify URL random w = Listening s0"
    and "promise (run evs s0) = Pending"
    and "\<not> truthy err" and "returnedState \<noteq> Some (state s0)"
  shows "promise (run (evs @ [Request (Url (callbackPath s0) code returnedState err)]) s0)
           = Rejected StateMismatch
       \<and> \<not> listening (run (evs @ [Request (Url (callbackPath s0) code returnedState err)]) s0)
       \<and> world (run (evs @ [Request (Url (callbackPath s0) code returnedState err)]) s0)
           = world (run evs s0)
       \<and> disk (world (run (evs @ [Request (Url (callbackPath s0) code returnedState err)]) s0))
           = disk w
       \<and> promise
           (run (evs @ [Request (Url (callbackPath s0) code returnedState err)] @ later) s0)
           = Rejected StateMismatch
       \<and> \<not> listening
           (run (evs @ [Request (Url (callbackPath s0) code returnedState err)] @ later) s0)
       \<and> ((\<forall>answer now. Token_response answer now \<in> set later \<longrightarrow> request_failed answer)
           \<longrightarrow> disk (world
                 (run (evs @ [Request (Url (callbackPath s0) code returnedState err)] @ later)
                   s0))
               = disk w)"
proof -
  let ?s = "run evs s0"
  let ?req = "Request (Url (callbackPath s0) code returnedState err)"
  note st = started [OF assms(1)]
  from st have "promise s0 = Pending \<longrightarrow> listening s0 \<and> disk (world s0) = disk w" by simp
  from run_pending [OF this, of evs] assms(2)
  have d: "disk (world ?s) = disk w" by simp
  have k: "callbackPath ?s = callbackPath s0" "state ?s = state s0"
    using run_constants [of evs s0] by simp_all
  from assms(4) k have ns: "returnedState \<noteq> Some (state ?s)" by simp
  have "step (Request (Url (callbackPath ?s) code returnedState err)) ?s
     = reject StateMismatch
         (?s\<lparr>listening := False,
             effects := effects ?s @ [WriteHead 200, End_response page_state, Server_close]\<rparr>)"
    using assms(3) ns by (rule step_mismatch)
  with k assms(2)
  have e: "run (evs @ [?req]) s0
      = ?s\<lparr>listening := False,
            effects := effects ?s @ [WriteHead 200, End_response page_state, Server_close],
            promise := Rejected StateMismatch,
            effects := effects ?s @ [WriteHead 200, End_response page_state, Server_close]
                       @ [Settles (Rejected StateMismatch)]\<rparr>"
    by (simp add: run_snoc reject_eq)
  have 1: "promise (run (evs @ [?req]) s0) = Rejected StateMismatch"
    and 2: "\<not> listening (run (evs @ [?req]) s0)"
    and 3: "world (run (evs @ [?req]) s0) = world ?s"
    by (simp_all add: e)
  from 3 d have 4: "disk (world (run (evs @ [?req]) s0)) = disk w" by simp
  have r: "run (evs @ [?req] @ later) s0 = run later (run (evs @ [?req]) s0)"
    by (simp add: run_append)
  from 1 have 5: "promise (run (evs @ [?req] @ later) s0) = Rejected StateMismatch"
    unfolding r by (simp add: run_settled)
  from 2 have 6: "\<not> listening (run (evs @ [?req] @ later) s0)"
    unfolding r by (rule run_stays_closed)
  have 7: "disk (world (run (evs @ [?req] @ later) s0)) = disk w"
    if "\<forall>answer now. Token_response answer now \<in> set later \<longrightarrow> request_failed answer"
    unfolding r using run_disk [OF that, of "run (evs @ [?req]) s0"] 4 by simp
  from 1 2 3 4 5 6 7 show ?thesis by blast
qed

theorem state_mismatch_rejects_witness:
  "authorizeSpotify URL0 random0 w0 = Listening flow0
   \<and> promise (run [favicon] flow0) = Pending
   \<and> request_failed refused
   \<and> promise (run ([favicon] @ [callback_mismatch]) flow0) = Rejected StateMismatch
   \<and> \<not> listening (run ([favicon] @ [callback_mismatch]) flow0)
   \<and> disk (world (run ([favicon] @ [callback_mismatch]) flow0)) = Content c0
   \<and> promise (run ([favicon] @ [callback_mismatch]
                   @ [callback_ok, Token_response refused 5000]) flow0)
       = Rejected StateMismatch
   \<and> \<not> listening (run ([favicon] @ [callback_mismatch]
                   @ [callback_ok, Token_response refused 5000]) flow0)
   \<and> disk (world (run ([favicon] @ [callback_mismatch]
                   @ [callback_ok, Token_response refused 5000]) flow0)) = Content c0"
proof -
  have p: "promise (run [favicon] flow0) = Pending"
    by (simp add: flow_eval)
  have e: "\<not> truthy None" by (simp add: truthy_def)
  have n: "Some ''XYZ'' \<noteq> Some (state flow0)" by (simp add: flow0_def)
  have c: "callbackPath flow0 = ''/callback''" by (simp add: flow0_def)
  have d: "disk w0 = Content c0" by (simp add: w0_def)
  have fr: "request_failed refused"
    by (simp add: request_failed_def refused_def ok_def)
  have h: "\<forall>answer now. Token_response answer now
      \<in> set [callback_ok, Token_response refused 5000] \<longrightarrow> request_failed answer"
    using fr by (simp add: callback_ok_def)
  note t = state_mismatch_rejects [OF flow0_started p e n, where code = "Some ''code''"
      and later = "[callback_ok, Token_response refused 5000]"]
  note t' = t [unfolded c, folded callback_mismatch_def]
  from t' have 1: "promise (run ([favicon] @ [callback_mismatch]) flow0) = Rejected StateMismatch"
    and 2: "\<not> listening (run ([favicon] @ [callback_mismatch]) flow0)"
    and 5: "promise (run ([favicon] @ [callback_mismatch]
                   @ [callback_ok, Token_response refused 5000]) flow0)
       = Rejected StateMismatch"
    and 6: "\<not> listening (run ([favicon] @ [callback_mismatch]
                   @ [callback_ok, Token_response refused 5000]) flow0)"
    by blast+
  from t' d have 3: "disk (world (run ([favicon] @ [callback_mismatch]) flow0)) = Content c0"
    by metis
  from t' h d
  have 7: "disk (world (run ([favicon] @ [callback_mismatch]
                   @ [callback_ok, Token_response refused 5000]) flow0)) = Content c0"
    by metis
  from flow0_started p fr 1 2 3 5 6 7 show ?thesis by blast
qed

subsection \<open>What a successful flow leaves on disk\<close>

text \<open>
  The flow completes successfully on a 2xx token response that carries no refresh
  token, and on one that carries no token at all and a negative lifetime: the record
  it saves lacks \<^verbatim>\<open>refreshToken\<close>, or both tokens with an \<^verbatim>\<open>expiresAt\<close> before the epoch.
\<close>

theorem round_trip_counterexample:
  "authorizeSpotify URL0 random0 w0 = Listening flow0
   \<and> promise (run [callback_ok, Token_response half_grant 5000] flow0) = Fulfilled
   \<and> disk (world (run [callback_ok, Token_response half_grant 5000] flow0))
       = Content (c0\<lparr>accessToken := Some ''A'', refreshToken := None,
                     expiresAt := Some 3605000\<rparr>)
   \<and> promise (run [callback_ok, Token_response empty_grant 5000] flow0) = Fulfilled
   \<and> disk (world (run [callback_ok, Token_response empty_grant 5000] flow0))
       = Content (c0\<lparr>accessToken := None, refreshToken := None,
                     expiresAt := Some (- 9995000)\<rparr>)"
  by (simp add: flow0_started) (simp add: flow_eval)

text \<open>
  Claim C4, amended. When every token response that the exchange accepts carries both
  tokens and a lifetime that is absent or not negative, and \<^verbatim>\<open>Date.now()\<close> does not
  read less than \<open>t0\<close>, the time the flow was invoked, a flow that is fulfilled leaves a
  record with both tokens and \<^verbatim>\<open>expiresAt\<close> after \<open>t0\<close>. For one valid callback answered
  with a 2xx response, the record saved is the loaded one with the two tokens of the
  response and \<^verbatim>\<open>expiresAt = now + expires_in * 1000\<close> (3600 seconds when
  \<^verbatim>\<open>expires_in\<close> is absent or zero).
\<close>

theorem authorization_round_trip:
  assumes "authorizeSpotify URL random w = Listening s0"
  shows "((\<forall>answer now. Token_response answer now \<in> set evs \<longrightarrow> grants_tokens answer \<and> t0 \<le> now)
           \<and> promise (run evs s0) = Fulfilled
          \<longrightarrow> authorized_until t0 (disk (world (run evs s0))))
       \<and> (truthy code \<and> \<not> truthy err \<and> ok r \<and> json r = Inr d \<longrightarrow>
            promise (run [Request (Url (callbackPath s0) code (Some (state s0)) err),
                          Token_response (Responds r) now] s0) = Fulfilled
            \<and> disk (world (run [Request (Url (callbackPath s0) code (Some (state s0)) err),
                                 Token_response (Responds r) now] s0))
                = Content ((config s0)\<lparr>accessToken := access_token d,
                    refreshToken := refresh_token d,
                    expiresAt := Some (int now
                      + (case expires_in d of None \<Rightarrow> 3600 | Some n \<Rightarrow> if n = 0 then 3600 else n)
                        * 1000)\<rparr>))
       \<and> loadSpotifyConfig w = Inr (config s0)"
proof -
  note st = started [OF assms]
  have 1: "authorized_until t0 (disk (world (run evs s0)))"
    if "\<forall>answer now. Token_response answer now \<in> set evs \<longrightarrow> grants_tokens answer \<and> t0 \<le> now"
      and "promise (run evs s0) = Fulfilled"
  proof -
    from st have "promise s0 = Fulfilled \<longrightarrow> authorized_until t0 (disk (world s0))" by simp
    from run_authorized [OF this that(1)] that(2) show ?thesis by simp
  qed
  have 2: "promise (run [Request (Url (callbackPath s0) code (Some (state s0)) err),
                          Token_response (Responds r) now] s0) = Fulfilled
            \<and> disk (world (run [Request (Url (callbackPath s0) code (Some (state s0)) err),
                                 Token_response (Responds r) now] s0))
                = Content ((config s0)\<lparr>accessToken := access_token d,
                    refreshToken := refresh_token d,
                    expiresAt := Some (int now
                      + (case expires_in d of None \<Rightarrow> 3600 | Some n \<Rightarrow> if n = 0 then 3600 else n)
                        * 1000)\<rparr>)"
    if "truthy code" "\<not> truthy err" "ok r" "json r = Inr d"
    using flow_single_callback [OF st(4,5) that, of now] by simp
  from 1 2 st(2) show ?thesis by blast
qed

theorem authorization_round_trip_witness:
  "authorizeSpotify URL0 random0 w0 = Listening flow0
   \<and> grants_tokens granted
   \<and> promise (run [callback_ok, Token_response granted 5000] flow0) = Fulfilled
   \<and> authorized_until 4000 (disk (world (run [callback_ok, Token_response granted 5000] flow0)))
   \<and> disk (world (run [callback_ok, Token_response granted 5000] flow0))
       = Content (c0\<lparr>accessToken := Some ''A'', refreshToken := Some ''R2'',
                     expiresAt := Some 3605000\<rparr>)"
proof -
  let ?r = "\<lparr>status = 200, response_text = ''{...}'',
     json = Inr \<lparr>access_token = Some ''A'', refresh_token = Some ''R2'', expires_in = Some 3600\<rparr>\<rparr>"
  let ?d = "\<lparr>access_token = Some ''A'', refresh_token = Some ''R2'', expires_in = Some 3600\<rparr>"
  have g: "grants_tokens granted"
    by (simp add: grants_tokens_def granted_def exchangeCodeForToken_def ok_def truthy_def)
  have h: "\<forall>answer now. Token_response answer now \<in> set [callback_ok, Token_response granted 5000]
      \<longrightarrow> grants_tokens answer \<and> (4000::nat) \<le> now"
    using g by (simp add: callback_ok_def)
  have c: "callbackPath flow0 = ''/callback''" "state flow0 = ''ABCDEFGHIJKLMNOP''"
    "config flow0 = c0"
    by (simp_all add: flow0_def)
  have k: "truthy (Some ''code'')" "\<not> truthy None" "ok ?r" "json ?r = Inr ?d"
    by (simp_all add: truthy_def ok_def)
  have ev: "[Request (Url ''/callback'' (Some ''code'') (Some ''ABCDEFGHIJKLMNOP'') None),
             Token_response (Responds ?r) 5000] = [callback_ok, Token_response granted 5000]"
    by (simp add: callback_ok_def granted_def)
  note t = authorization_round_trip [OF flow0_started,
      where evs = "[callback_ok, Token_response granted 5000]" and ?t0.0 = 4000
        and code = "Some ''code''" and err = None and r = ?r and d = ?d and now = 5000,
      unfolded c ev]
  from t k have 1: "promise (run [callback_ok, Token_response granted 5000] flow0) = Fulfilled"
    by blast
  from t h 1
  have 2: "authorized_until 4000 (disk (world (run [callback_ok, Token_response granted 5000] flow0)))"
    by blast
  from t k have "disk (world (run [callback_ok, Token_response granted 5000] flow0))
       = Content (c0\<lparr>accessToken := access_token ?d, refreshToken := refresh_token ?d,
            expiresAt := Some (int 5000
              + (case expires_in ?d of None \<Rightarrow> 3600 | Some n \<Rightarrow> if n = 0 then 3600 else n) * 1000)\<rparr>)"
    by blast
  then have 3: "disk (world (run [callback_ok, Token_response granted 5000] flow0))
       = Content (c0\<lparr>accessToken := Some ''A'', refreshToken := Some ''R2'',
                     expiresAt := Some 3605000\<rparr>)"
    by simp
  from flow0_started g 1 2 3 show ?thesis by blast
qed

subsection \<open>The token pair\<close>

text \<open>
  A refresh answered 2xx without an access token leaves a record with a refresh token
  and no access token; a flow whose token response has no refresh token leaves a
  record with an access token and no refresh token.
\<close>

theorem token_pair_counterexample:
  "token_pair (disk w0)
   \<and> disk (snd (getAccessToken token_no_access 2000 w0))
       = Content (c0\<lparr>accessToken := None, expiresAt := Some 3602000\<rparr>)
   \<and> refreshToken c0 = Some ''R''
   \<and> \<not> token_pair (disk (snd (getAccessToken token_no_access 2000 w0)))
   \<and> authorizeSpotify URL0 random0 w0 = Listening flow0
   \<and> promise (run [callback_ok, Token_response half_grant 5000] flow0) = Fulfilled
   \<and> disk (world (run [callback_ok, Token_response half_grant 5000] flow0))
       = Content (c0\<lparr>accessToken := Some ''A'', refreshToken := None,
                     expiresAt := Some 3605000\<rparr>)
   \<and> \<not> token_pair (disk (world (run [callback_ok, Token_response half_grant 5000] flow0)))"
proof -
  have 1: "disk (snd (getAccessToken token_no_access 2000 w0))
       = Content (c0\<lparr>accessToken := None, expiresAt := Some 3602000\<rparr>)"
    by (simp add: getAccessToken_def loadSpotifyConfig_def w0_def c0_def truthy_def
        shouldRefresh_def refreshAccessToken_def refresh_answer_def token_no_access_def ok_def
        Let_def saveSpotifyConfig_def)
  have 2: "token_pair (disk w0)" "refreshToken c0 = Some ''R''"
    by (simp_all add: token_pair_def w0_def c0_def truthy_def)
  have 3: "\<not> token_pair (disk (snd (getAccessToken token_no_access 2000 w0)))"
    by (simp only: 1) (simp add: token_pair_def c0_def truthy_def)
  have 4: "promise (run [callback_ok, Token_response half_grant 5000] flow0) = Fulfilled"
    by (simp add: flow_eval)
  have 5: "disk (world (run [callback_ok, Token_response half_grant 5000] flow0))
       = Content (c0\<lparr>accessToken := Some ''A'', refreshToken := None,
                     expiresAt := Some 3605000\<rparr>)"
    by (simp add: flow_eval)
  have 6: "\<not> token_pair (disk (world (run [callback_ok, Token_response half_grant 5000] flow0)))"
    by (simp only: 5) (simp add: token_pair_def c0_def truthy_def)
  from 1 2 3 4 5 6 flow0_started show ?thesis by blast
qed

text \<open>
  Claim C9, amended. When the token pair holds of the file, it still holds after
  \<^verbatim>\<open>getAccessToken\<close>, whether the call succeeds or fails, provided every 2xx answer of
  the token endpoint that decodes carries an access token; and it holds at every point
  of an authorization flow started on that file, provided every token response the
  exchange accepts carries both tokens or neither.
\<close>

theorem token_pair_preserved:
  "(token_pair (disk w)
     \<and> (\<forall>req r d. fetch req = Responds r \<and> ok r \<and> json r = Inr d \<longrightarrow> truthy (access_token d))
    \<longrightarrow> token_pair (disk (snd (getAccessToken fetch now w))))
   \<and> (token_pair (disk w) \<and> authorizeSpotify URL random w = Listening s0
       \<and> (\<forall>answer t. Token_response answer t \<in> set evs \<longrightarrow> grants_pair answer)
      \<longrightarrow> token_pair (disk (world (run evs s0))))"
proof -
  have 1: "token_pair (disk (snd (getAccessToken fetch now w)))"
    if "token_pair (disk w)"
      "\<forall>req r d. fetch req = Responds r \<and> ok r \<and> json r = Inr d \<longrightarrow> truthy (access_token d)"
    using that by (rule getAccessToken_token_pair)
  have 2: "token_pair (disk (world (run evs s0)))"
    if "token_pair (disk w)" "authorizeSpotify URL random w = Listening s0"
      "\<forall>answer t. Token_response answer t \<in> set evs \<longrightarrow> grants_pair answer"
  proof -
    from started(1) [OF that(2)] that(1) have "token_pair (disk (world s0))" by simp
    then show ?thesis using that(3) by (rule run_token_pair)
  qed
  from 1 2 show ?thesis by blast
qed

theorem token_pair_preserved_witness:
  "token_pair (disk w0)
   \<and> token_pair (disk (snd (getAccessToken token_200 2000 w0)))
   \<and> disk (snd (getAccessToken token_200 2000 w0))
       = Content (c0\<lparr>accessToken := Some ''new'', expiresAt := Some 3602000\<rparr>)
   \<and> authorizeSpotify URL0 random0 w0 = Listening flow0
   \<and> grants_pair granted
   \<and> token_pair (disk (world (run [callback_ok, Token_response granted 5000] flow0)))"
proof -
  have p: "token_pair (disk w0)" by (simp add: token_pair_def w0_def c0_def truthy_def)
  have a: "\<forall>req r d. token_200 req = Responds r \<and> ok r \<and> json r = Inr d \<longrightarrow> truthy (access_token d)"
    by (auto simp: token_200_def truthy_def)
  have g: "grants_pair granted"
    by (simp add: grants_pair_def granted_def exchangeCodeForToken_def ok_def truthy_def)
  have h: "\<forall>answer t. Token_response answer t \<in> set [callback_ok, Token_response granted 5000]
      \<longrightarrow> grants_pair answer"
    using g by (simp add: callback_ok_def)
  note t = token_pair_preserved [where w = w0 and fetch = token_200 and now = 2000 and URL = URL0
      and random = random0 and ?s0.0 = flow0 and evs = "[callback_ok, Token_response granted 5000]"]
  from t p a have 1: "token_pair (disk (snd (getAccessToken token_200 2000 w0)))" by blast
  from t p h flow0_started
  have 2: "token_pair (disk (world (run [callback_ok, Token_response granted 5000] flow0)))"
    by blast
  have 3: "disk (snd (getAccessToken token_200 2000 w0))
       = Content (c0\<lparr>accessToken := Some ''new'', expiresAt := Some 3602000\<rparr>)"
    by (simp add: getAccessToken_def loadSpotifyConfig_def w0_def c0_def truthy_def
        shouldRefresh_def refreshAccessToken_def refresh_answer_def token_200_def ok_def
        Let_def saveSpotifyConfig_def)
  from p 1 3 flow0_started g 2 show ?thesis by blast
qed

end
